theory Spec2Isabelle
  imports Main
begin

section \<open>Python values used by the server\<close>

text \<open>
  The exceptions the modelled calls can raise. The three \<open>psutil\<close> process-query
  failures are the ones the source names in its \<open>except\<close> clauses; \<open>TimeoutError\<close> is
  the one \<open>main\<close> reports separately; \<open>OSError\<close> is what \<open>os.fork\<close> and a failed
  subprocess launch raise; \<open>OtherException\<close> stands for any further subclass of
  \<open>Exception\<close>. All of them are subclasses of \<open>Exception\<close>, so \<open>except Exception\<close>
  catches every value of this type. Asynchronous interrupts are outside the model.
\<close>

datatype exn = NoSuchProcess | AccessDenied | ZombieProcess | TimeoutError | OSError | OtherException

text \<open>\<open>except (psutil.NoSuchProcess, psutil.AccessDenied, psutil.ZombieProcess)\<close>\<close>

definition tolerated :: "exn \<Rightarrow> bool" where
  "tolerated e = (e = NoSuchProcess \<or> e = AccessDenied \<or> e = ZombieProcess)"

subsection \<open>Strings\<close>

text \<open>
  A Python \<open>str\<close> is modelled as a \<open>string\<close>; a \<open>char\<close> stands for the code point of
  the same number, so the model covers the strings whose code points are below 256.
  \<open>py_startswith s p\<close> is \<open>s.startswith(p)\<close>, \<open>py_in sub s\<close> is \<open>sub in s\<close>.
\<close>

fun py_startswith :: "'a list \<Rightarrow> 'a list \<Rightarrow> bool" where
  "py_startswith s [] = True"
| "py_startswith [] (p # ps) = False"
| "py_startswith (c # s) (p # ps) = (c = p \<and> py_startswith s ps)"

fun py_in :: "'a list \<Rightarrow> 'a list \<Rightarrow> bool" where
  "py_in sub [] = (sub = [])"
| "py_in sub (c # s) = (py_startswith (c # s) sub \<or> py_in sub s)"

text \<open>\<open>str.lower()\<close> on code points below 256: the ASCII capitals and the Latin-1
  capitals (192 to 222 but the multiplication sign 215) move up by 32.\<close>

definition py_lower_char :: "char \<Rightarrow> char" where
  "py_lower_char c =
     (let n = (of_char c :: nat) in
      if (65 \<le> n \<and> n \<le> 90) \<or> (192 \<le> n \<and> n \<le> 222 \<and> n \<noteq> 215) then char_of (n + 32) else c)"

definition py_lower :: "string \<Rightarrow> string" where
  "py_lower s = map py_lower_char s"

text \<open>
  \<open>str(xs)\<close> of a list of strings is \<open>[\<close>, the \<open>repr\<close> of each element separated by
  a comma and a space, and \<open>]\<close>. The \<open>repr\<close> of a string is quoted with \<open>'\<close>, or with
  \<open>"\<close> when the string holds a \<open>'\<close> and no \<open>"\<close>; the quote and the backslash are
  escaped with a backslash, tab, newline and carriage return are written \<open>\t\<close>, \<open>\n\<close>,
  \<open>\r\<close>, every other non-printable code point below 256 is written \<open>\xNN\<close> with two
  lower-case hexadecimal digits, and a printable code point is copied.
\<close>

definition backslash :: char where "backslash = CHR 0x5C"
definition squote :: char where "squote = CHR 0x27"
definition dquote :: char where "dquote = CHR 0x22"

definition py_printable :: "char \<Rightarrow> bool" where
  "py_printable c = (let n = (of_char c :: nat) in (32 \<le> n \<and> n < 127) \<or> (161 \<le> n \<and> n \<noteq> 173))"

definition hex_digit :: "nat \<Rightarrow> char" where
  "hex_digit k = ''0123456789abcdef'' ! (k mod 16)"

definition py_repr_char :: "char \<Rightarrow> char \<Rightarrow> string" where
  "py_repr_char q c =
     (if c = q \<or> c = backslash then [backslash, c]
      else if c = CHR 0x09 then [backslash, CHR ''t'']
      else if c = CHR 0x0A then [backslash, CHR ''n'']
      else if c = CHR 0x0D then [backslash, CHR ''r'']
      else if py_printable c then [c]
      else [backslash, CHR ''x'', hex_digit (of_char c div 16), hex_digit (of_char c)])"

definition py_repr_quote :: "string \<Rightarrow> char" where
  "py_repr_quote s = (if squote \<in> set s \<and> dquote \<notin> set s then dquote else squote)"

definition py_repr_str :: "string \<Rightarrow> string" where
  "py_repr_str s = py_repr_quote s # concat (map (py_repr_char (py_repr_quote s)) s) @ [py_repr_quote s]"

fun py_join :: "string \<Rightarrow> string list \<Rightarrow> string" where
  "py_join sep [] = []"
| "py_join sep [x] = x"
| "py_join sep (x # y # ys) = x @ sep @ py_join sep (y # ys)"

definition py_str_list :: "string list \<Rightarrow> string" where
  "py_str_list xs = ''['' @ py_join '', '' (map py_repr_str xs) @ '']''"

section \<open>The environment of the server\<close>

text \<open>
  Everything the module reaches outside itself, as the answers it gets: the platform
  string, the operating system's process table as \<open>psutil\<close> shows it (a process handle
  is its pid; an attribute read returns a value or raises), the subprocess and fork
  calls, and the collaborators imported from \<open>claude_autoapprove\<close>.
\<close>

record world =
  sys_platform :: string
  os_getpid :: nat
  process_iter :: "nat list"
  proc_name :: "nat \<Rightarrow> exn + string"
  proc_cmdline :: "nat \<Rightarrow> exn + string list"
  proc_exe :: "nat \<Rightarrow> exn + string"
  proc_parent :: "nat \<Rightarrow> exn + nat option"
  proc_children :: "nat \<Rightarrow> exn + nat list"
  proc_terminate :: "nat \<Rightarrow> exn option"
  proc_kill :: "nat \<Rightarrow> exn option"
  wait_procs :: "nat list \<Rightarrow> nat \<Rightarrow> exn + (nat list \<times> nat list)"
  subprocess_run :: "string list \<Rightarrow> exn option"
  subprocess_Popen :: "exn option"
  os_fork_fails :: "nat \<Rightarrow> bool"
  is_port_open :: "int \<Rightarrow> bool"
  start_claude :: "int \<Rightarrow> exn option"
  inject_script :: "int \<Rightarrow> exn option"
  mcp_run :: "exn option"

section \<open>Process Locator\<close>

text \<open>
  The body of the \<open>try\<close> block of \<open>find_claude_process\<close> for one candidate:
  \<open>Inr True\<close> when the candidate is returned, \<open>Inr False\<close> when no branch returns,
  \<open>Inl e\<close> when a read raises. \<open>or\<close> reads the name first and the command line only
  when the name does not decide.
\<close>

definition claude_candidate :: "world \<Rightarrow> nat \<Rightarrow> exn + bool" where
  "claude_candidate w p =
     (if sys_platform w = ''darwin'' then
        (case proc_name w p of
           Inl e \<Rightarrow> Inl e
         | Inr n \<Rightarrow>
             if n = ''Claude'' then Inr True
             else (case proc_cmdline w p of
                     Inl e \<Rightarrow> Inl e
                   | Inr c \<Rightarrow> Inr (py_in ''Claude.app'' (py_str_list c))))
      else if sys_platform w = ''win32'' then
        (case proc_name w p of
           Inl e \<Rightarrow> Inl e
         | Inr n \<Rightarrow>
             if py_in ''Claude.exe'' n then Inr True
             else (case proc_cmdline w p of
                     Inl e \<Rightarrow> Inl e
                   | Inr c \<Rightarrow> Inr (py_in ''Claude.exe'' (py_str_list c))))
      else if py_startswith (sys_platform w) ''linux'' then
        (case proc_name w p of
           Inl e \<Rightarrow> Inl e
         | Inr n \<Rightarrow>
             if py_in ''Claude'' n then Inr True
             else (case proc_cmdline w p of
                     Inl e \<Rightarrow> Inl e
                   | Inr c \<Rightarrow> Inr (py_in ''Claude'' (py_str_list c))))
      else Inr False)"

text \<open>The \<open>for\<close> loop over \<open>psutil.process_iter\<close>: the first candidate that matches is
  returned, a tolerated failure skips the candidate, any other exception leaves the
  function.\<close>

fun find_scan :: "world \<Rightarrow> nat list \<Rightarrow> exn + nat option" where
  "find_scan w [] = Inr None"
| "find_scan w (p # ps) =
     (case claude_candidate w p of
        Inr True \<Rightarrow> Inr (Some p)
      | Inr False \<Rightarrow> find_scan w ps
      | Inl e \<Rightarrow> if tolerated e then find_scan w ps else Inl e)"

definition find_claude_process :: "world \<Rightarrow> exn + nat option" where
  "find_claude_process w = find_scan w (process_iter w)"


text \<open>
  \<open>get_main_claude_process\<close>, first loop: walk up the parent chain and return the first
  process whose executable path contains \<open>Contents/MacOS/Claude\<close>. The read of the
  path is the only guarded call: a tolerated failure gives the empty path.
  \<open>current.parent()\<close> is outside the \<open>try\<close>. The loop has no bound of its own, so
  it is a partial function: \<open>None\<close> is a walk that never leaves the loop,
  \<open>Some (Inr None)\<close> a walk that falls out of the loop with no match.
\<close>

definition read_exe_path :: "world \<Rightarrow> nat \<Rightarrow> exn + string" where
  "read_exe_path w p =
     (case proc_exe w p of
        Inr path \<Rightarrow> Inr path
      | Inl e \<Rightarrow> if tolerated e then Inr [] else Inl e)"

partial_function (option) exe_walk :: "world \<Rightarrow> nat option \<Rightarrow> (exn + nat option) option" where
  "exe_walk w current =
     (case current of
        None \<Rightarrow> Some (Inr None)
      | Some p \<Rightarrow>
          (case read_exe_path w p of
             Inl e \<Rightarrow> Some (Inl e)
           | Inr exe_path \<Rightarrow>
               if py_in ''Contents/MacOS/Claude'' exe_path then Some (Inr (Some p))
               else (case proc_parent w p of
                       Inl e \<Rightarrow> Some (Inl e)
                     | Inr nxt \<Rightarrow> exe_walk w nxt)))"

text \<open>Second loop: the last ancestor whose lower-cased name is \<open>claude\<close> or
  \<open>claude.exe\<close>. Neither \<open>current.name()\<close> nor \<open>current.parent()\<close> is guarded.\<close>

partial_function (option) name_walk :: "world \<Rightarrow> nat option \<Rightarrow> nat option \<Rightarrow> (exn + nat option) option" where
  "name_walk w current candidate =
     (case current of
        None \<Rightarrow> Some (Inr candidate)
      | Some p \<Rightarrow>
          (case proc_name w p of
             Inl e \<Rightarrow> Some (Inl e)
           | Inr n \<Rightarrow>
               (case proc_parent w p of
                  Inl e \<Rightarrow> Some (Inl e)
                | Inr nxt \<Rightarrow>
                    name_walk w nxt
                      (if py_lower n = ''claude'' \<or> py_lower n = ''claude.exe'' then Some p
                       else candidate))))"

definition get_main_claude_process :: "world \<Rightarrow> (exn + nat option) option" where
  "get_main_claude_process w =
     (case exe_walk w (Some (os_getpid w)) of
        None \<Rightarrow> None
      | Some (Inl e) \<Rightarrow> Some (Inl e)
      | Some (Inr (Some p)) \<Rightarrow> Some (Inr (Some p))
      | Some (Inr None) \<Rightarrow> name_walk w (Some (os_getpid w)) None)"

section \<open>Process Terminator\<close>

text \<open>The lines written to the error stream, one constructor for each message of the
  source, and the effects of the module.\<close>

datatype log_line =
    AppleScriptQuitFailed exn
  | TaskkillFailed exn
  | TerminatingChild nat
  | TerminatingMain nat
  | ForceKilling "nat list"
  | ErrorKilling exn
  | StartedInBackground
  | StartingMCP int
  | NotListening int
  | AttemptingTerminate
  | ExistingTerminated
  | StartingClaude int
  | FailedToConnect int
  | ErrorStarting exn

datatype event =
    Eprint log_line
  | SubprocessRun "string list"
  | Popen
  | Children nat
  | Terminate nat
  | Kill nat
  | WaitProcs "nat list" nat
  | Fork
  | SysExit nat
  | Chdir string
  | Setsid
  | Umask nat
  | FlushStdout
  | FlushStderr
  | RedirectStdin
  | RedirectStdout
  | RedirectStderr
  | StartClaude int
  | InjectScript int
  | McpRun

definition osascript_cmd :: "string list" where
  "osascript_cmd = [''osascript'', ''-e'', ''tell application '' @ [dquote] @ ''Claude'' @ [dquote] @ '' to quit'']"

definition taskkill_cmd :: "string list" where
  "taskkill_cmd = [''taskkill'', ''/IM'', ''Claude.exe'', ''/T'', ''/F'']"

text \<open>The first part of \<open>kill_claude_process\<close>: the platform's own quit command. The
  flag is \<open>True\<close> when the function has returned \<open>True\<close>, \<open>False\<close> when control goes
  on to the lookup.\<close>

definition native_quit :: "world \<Rightarrow> event list \<times> bool" where
  "native_quit w =
     (if sys_platform w = ''darwin'' then
        (case subprocess_run w osascript_cmd of
           None \<Rightarrow> ([SubprocessRun osascript_cmd], True)
         | Some e \<Rightarrow> ([SubprocessRun osascript_cmd, Eprint (AppleScriptQuitFailed e)], False))
      else if sys_platform w = ''win32'' then
        (case subprocess_run w taskkill_cmd of
           None \<Rightarrow> ([SubprocessRun taskkill_cmd], True)
         | Some e \<Rightarrow> ([SubprocessRun taskkill_cmd, Eprint (TaskkillFailed e)], False))
      else ([], False))"

text \<open>\<open>get_main_claude_process() or find_claude_process()\<close>\<close>

definition locate_claude :: "world \<Rightarrow> (exn + nat option) option" where
  "locate_claude w =
     (case get_main_claude_process w of
        None \<Rightarrow> None
      | Some (Inl e) \<Rightarrow> Some (Inl e)
      | Some (Inr (Some p)) \<Rightarrow> Some (Inr (Some p))
      | Some (Inr None) \<Rightarrow> Some (find_claude_process w))"

definition after :: "'e list \<Rightarrow> 'e list \<times> 'r \<Rightarrow> 'e list \<times> 'r" where
  "after evs r = (evs @ fst r, snd r)"

text \<open>
  How a piece of the \<open>try\<close> block ends: it runs to its end, an exception leaves it,
  or the process has sent a signal to its own pid. \<open>terminate()\<close> and \<open>kill()\<close> send
  \<open>SIGTERM\<close> and \<open>SIGKILL\<close>; the module installs no handler, so a signal that the
  process sends to itself and that is delivered (the call does not raise) ends the
  process there: nothing after the call runs.
\<close>

datatype ending = Completes | Raising exn | SelfSignalled

text \<open>The two \<open>for\<close> loops of the \<open>try\<close> block.\<close>

fun terminate_children :: "world \<Rightarrow> nat list \<Rightarrow> event list \<times> ending" where
  "terminate_children w [] = ([], Completes)"
| "terminate_children w (child # children) =
     after [Eprint (TerminatingChild child), Terminate child]
       (case proc_terminate w child of
          Some e \<Rightarrow> ([], Raising e)
        | None \<Rightarrow>
            if child = os_getpid w then ([], SelfSignalled)
            else terminate_children w children)"

fun kill_alive :: "world \<Rightarrow> nat list \<Rightarrow> event list \<times> ending" where
  "kill_alive w [] = ([], Completes)"
| "kill_alive w (p # ps) =
     after [Kill p]
       (case proc_kill w p of
          Some e \<Rightarrow> ([], Raising e)
        | None \<Rightarrow>
            if p = os_getpid w then ([], SelfSignalled)
            else kill_alive w ps)"

text \<open>The \<open>try\<close> block: \<open>Completes\<close> when it reaches \<open>return True\<close>, \<open>Raising e\<close> when
  \<open>e\<close> is raised inside it, \<open>SelfSignalled\<close> when the process has ended at its own
  signal.\<close>

definition signal_termination :: "world \<Rightarrow> nat \<Rightarrow> event list \<times> ending" where
  "signal_termination w proc =
     after [Children proc]
       (case proc_children w proc of
          Inl e \<Rightarrow> ([], Raising e)
        | Inr children \<Rightarrow>
            (case terminate_children w children of
               (evs, Completes) \<Rightarrow>
                 after (evs @ [Eprint (TerminatingMain proc), Terminate proc])
                   (case proc_terminate w proc of
                      Some e \<Rightarrow> ([], Raising e)
                    | None \<Rightarrow>
                        if proc = os_getpid w then ([], SelfSignalled)
                        else
                          after [WaitProcs (proc # children) 5]
                            (case wait_procs w (proc # children) 5 of
                               Inl e \<Rightarrow> ([], Raising e)
                             | Inr (gone, alive) \<Rightarrow>
                                 if alive \<noteq> [] then after [Eprint (ForceKilling alive)] (kill_alive w alive)
                                 else ([], Completes)))
             | (evs, r) \<Rightarrow> (evs, r)))"

text \<open>\<open>kill_claude_process\<close>: the events, and the returned value: \<open>Some (Inl e)\<close> when
  \<open>e\<close> leaves the function, \<open>None\<close> when the call does not return (the lookup never
  leaves a loop, or the process has ended at a signal it sent to itself; the events
  then end with that signal).\<close>

definition kill_claude_process :: "world \<Rightarrow> event list \<times> (exn + bool) option" where
  "kill_claude_process w =
     (case native_quit w of
        (evs, True) \<Rightarrow> (evs, Some (Inr True))
      | (evs, False) \<Rightarrow>
          after evs
            (case locate_claude w of
               None \<Rightarrow> ([], None)
             | Some (Inl e) \<Rightarrow> ([], Some (Inl e))
             | Some (Inr None) \<Rightarrow> ([], Some (Inr False))
             | Some (Inr (Some proc)) \<Rightarrow>
                 (case signal_termination w proc of
                    (evs', Completes) \<Rightarrow> (evs', Some (Inr True))
                  | (evs', Raising e) \<Rightarrow> (evs' @ [Eprint (ErrorKilling e)], Some (Inr False))
                  | (evs', SelfSignalled) \<Rightarrow> (evs', None))))"

section \<open>Daemonizer and Launch Orchestrator\<close>

text \<open>
  A run of \<open>main\<close> can fork. Every fork of the module is followed by the exit of one
  side, so the processes of a run form a chain: the process that starts the run has
  index \<open>i\<close>, a child has the index of its parent plus one, and \<open>os_fork_fails w i\<close>
  says whether the fork called by process \<open>i\<close> raises \<open>OSError\<close>. A trace lists the
  effects with the index of the process that performs them; after a fork the parent's
  effects are listed before the child's. The status says where control is when the
  function is left. \<open>sys.exit\<close> raises \<open>SystemExit\<close>, which no handler of the module
  catches: the process ends. \<open>Stopped i\<close> is a process \<open>i\<close> that does not get past a
  call: it is in a loop that never ends, or it has ended at a signal it sent to itself.
  Of the calls of \<open>daemonize\<close> only \<open>os.fork\<close> is given a failure, the one the
  source handles; \<open>chdir\<close>, \<open>setsid\<close>, \<open>umask\<close>, the flushes and the redirections are
  effects that succeed.
\<close>

datatype status =
    Returned nat
  | Raised nat exn
  | Exited
  | Stopped nat
  | Unfinished nat

type_synonym trace = "(nat \<times> event) list"

record args =
  port :: int
  daemon :: bool

definition daemonize :: "world \<Rightarrow> nat \<Rightarrow> trace \<times> status" where
  "daemonize w i =
     (if sys_platform w = ''win32'' then ([], Returned i)
      else
        after [(i, Fork)]
          (if os_fork_fails w i then ([(i, SysExit 1)], Exited)
           else
             after [(i, SysExit 0), (i + 1, Chdir ''/''), (i + 1, Setsid), (i + 1, Umask 0), (i + 1, Fork)]
               (if os_fork_fails w (i + 1) then ([(i + 1, SysExit 1)], Exited)
                else
                  ([(i + 1, SysExit 0), (i + 2, FlushStdout), (i + 2, FlushStderr),
                    (i + 2, RedirectStdin), (i + 2, RedirectStdout), (i + 2, RedirectStderr)],
                   Returned (i + 2)))))"

text \<open>
  \<open>main\<close> and \<open>start_in_background\<close> call each other: the child of the fork calls
  \<open>main(args)\<close> with the arguments it was given. The first argument bounds the number
  of these nested calls that are followed; a run cut there ends \<open>Unfinished\<close>.
\<close>

fun main :: "nat \<Rightarrow> world \<Rightarrow> args \<Rightarrow> nat \<Rightarrow> trace \<times> status"
  and start_in_background :: "nat \<Rightarrow> world \<Rightarrow> args \<Rightarrow> nat \<Rightarrow> trace \<times> status" where
  "main n w a i =
     after [(i, Eprint (StartingMCP (port a)))]
       (if daemon a then start_in_background n w a i
        else if \<not> is_port_open w (port a) then
          after ([(i, Eprint (NotListening (port a))), (i, Eprint AttemptingTerminate)]
                 @ map (Pair i) (fst (kill_claude_process w)))
            (case snd (kill_claude_process w) of
               None \<Rightarrow> ([], Stopped i)
             | Some (Inl e) \<Rightarrow> ([], Raised i e)
             | Some (Inr killed) \<Rightarrow>
                 ((if killed then [(i, Eprint ExistingTerminated)] else [])
                  @ [(i, Eprint (StartingClaude (port a))), (i, StartClaude (port a))]
                  @ (case start_claude w (port a) of
                       None \<Rightarrow> []
                     | Some e \<Rightarrow>
                         if e = TimeoutError then [(i, Eprint (FailedToConnect (port a)))]
                         else [(i, Eprint (ErrorStarting e))]),
                  Returned i))
        else
          after [(i, InjectScript (port a))]
            (case inject_script w (port a) of
               Some e \<Rightarrow> ([], Raised i e)
             | None \<Rightarrow>
                 after [(i, McpRun)]
                   (case mcp_run w of
                      Some e \<Rightarrow> ([], Raised i e)
                    | None \<Rightarrow> ([], Returned i))))"
| "start_in_background n w a i =
     (if sys_platform w = ''win32'' then
        after [(i, Popen)]
          (case subprocess_Popen w of
             Some e \<Rightarrow> ([], Raised i e)
           | None \<Rightarrow> ([], Returned i))
      else
        after [(i, Fork)]
          (if os_fork_fails w i then ([], Raised i OSError)
           else
             after [(i, Eprint StartedInBackground), (i, SysExit 0)]
               (case daemonize w (i + 1) of
                  (tr, Returned j) \<Rightarrow>
                    after tr (case n of 0 \<Rightarrow> ([], Unfinished j) | Suc m \<Rightarrow> main m w a j)
                | (tr, st) \<Rightarrow> (tr, st))))"

section \<open>Control Server\<close>

text \<open>The configuration collaborator: the object read once when the module is loaded,
  and the function that lists its trusted tools.\<close>

record 'cfg configuration =
  claude_config :: 'cfg
  get_trusted_tools :: "'cfg \<Rightarrow> exn + string list"

definition autoapproved_tools :: "'cfg configuration \<Rightarrow> exn + string list" where
  "autoapproved_tools c = get_trusted_tools c (claude_config c)"

section \<open>Properties\<close>

subsection \<open>Notions used in the statements\<close>

text \<open>
  The specification's platform predicates, in its own words: on macOS the name equals
  the display name or the command line mentions the bundle; on Windows the name or the
  command line mentions the \<open>.exe\<close> name; on Linux the name or the command line
  contains the display name. A command line mentions a string when one of its
  arguments contains it.
\<close>

definition name_identifies :: "string \<Rightarrow> string \<Rightarrow> bool" where
  "name_identifies platform n =
     (if platform = ''darwin'' then n = ''Claude''
      else if platform = ''win32'' then py_in ''Claude.exe'' n
      else if py_startswith platform ''linux'' then py_in ''Claude'' n
      else False)"

definition cmdline_identifies :: "string \<Rightarrow> string list \<Rightarrow> bool" where
  "cmdline_identifies platform c =
     (if platform = ''darwin'' then (\<exists>a\<in>set c. py_in ''Claude.app'' a)
      else if platform = ''win32'' then (\<exists>a\<in>set c. py_in ''Claude.exe'' a)
      else if py_startswith platform ''linux'' then (\<exists>a\<in>set c. py_in ''Claude'' a)
      else False)"

text \<open>The characters that the \<open>repr\<close> of a string can add to it, and the strings that
  can only appear in a \<open>repr\<close> as a copy: they start with a character that is never
  added, and hold no character that is escaped.\<close>

definition escape_alphabet :: "char set" where
  "escape_alphabet =
     set ''0123456789abcdef'' \<union> set ''tnrx'' \<union> {backslash, squote, dquote} \<union> set ''[], ''"

definition copied_needle :: "string \<Rightarrow> bool" where
  "copied_needle n \<longleftrightarrow>
     n \<noteq> [] \<and> hd n \<notin> escape_alphabet \<and>
     list_all (\<lambda>c. py_printable c \<and> c \<noteq> backslash \<and> c \<noteq> squote \<and> c \<noteq> dquote) n"

definition escaped :: "char \<Rightarrow> string \<Rightarrow> string" where
  "escaped q s = concat (map (py_repr_char q) s)"

text \<open>The effects of the signal-based path, the terminate signals among them, and the
  platform's own quit command.\<close>

fun signal_event :: "event \<Rightarrow> bool" where
  "signal_event (Children p) = True"
| "signal_event (Terminate p) = True"
| "signal_event (Kill p) = True"
| "signal_event (WaitProcs ps t) = True"
| "signal_event ev = False"


definition native_cmd :: "string \<Rightarrow> string list" where
  "native_cmd platform = (if platform = ''darwin'' then osascript_cmd else taskkill_cmd)"

text \<open>The effects that belong to the injection step and to the Control Server.\<close>

fun server_event :: "event \<Rightarrow> bool" where
  "server_event McpRun = True"
| "server_event (InjectScript p) = True"
| "server_event ev = False"



text \<open>A parent chain that ends: it reaches a process with no parent, or a read of the
  parent that raises.\<close>

inductive chain_ends :: "world \<Rightarrow> nat option \<Rightarrow> bool" for w :: world where
  no_process: "chain_ends w None"
| parent_raises: "proc_parent w p = Inl e \<Longrightarrow> chain_ends w (Some p)"
| parent_step: "proc_parent w p = Inr nxt \<Longrightarrow> chain_ends w nxt \<Longrightarrow> chain_ends w (Some p)"

subsection \<open>Example environments\<close>

text \<open>A Linux machine: the server (pid 100) was started by the desktop application
  (pid 50, named \<open>claude\<close>), which has one more child (pid 101). Every call succeeds,
  nothing listens on the debugger port.\<close>

definition linux_world :: world where
  "linux_world =
     \<lparr> sys_platform = ''linux'',
       os_getpid = 100,
       process_iter = [2, 50, 100, 101],
       proc_name = (\<lambda>p. Inr (if p = 2 then ''systemd'' else if p = 50 then ''claude''
                              else if p = 100 then ''python3'' else ''node'')),
       proc_cmdline = (\<lambda>p. Inr (if p = 2 then [''/sbin/init''] else if p = 50 then [''/usr/bin/claude-desktop'']
                                 else if p = 100 then [''python3'', ''-m'', ''autoapprove''] else [''node''])),
       proc_exe = (\<lambda>p. Inr (if p = 2 then ''/usr/lib/systemd/systemd'' else if p = 50 then ''/usr/bin/claude-desktop''
                             else if p = 100 then ''/usr/bin/python3'' else ''/usr/bin/node'')),
       proc_parent = (\<lambda>p. Inr (if p = 100 \<or> p = 101 then Some 50 else if p = 50 then Some 2 else None)),
       proc_children = (\<lambda>p. Inr (if p = 50 then [100, 101] else if p = 2 then [50, 100, 101] else [])),
       proc_terminate = (\<lambda>p. None),
       proc_kill = (\<lambda>p. None),
       wait_procs = (\<lambda>ps t. Inr (filter (\<lambda>p. p \<noteq> 101) ps, filter (\<lambda>p. p = 101) ps)),
       subprocess_run = (\<lambda>cmd. None),
       subprocess_Popen = None,
       os_fork_fails = (\<lambda>i. False),
       is_port_open = (\<lambda>p. False),
       start_claude = (\<lambda>p. None),
       inject_script = (\<lambda>p. None),
       mcp_run = None \<rparr>"

definition plain_args :: args where
  "plain_args = \<lparr> port = 9222, daemon = False \<rparr>"

definition daemon_args :: args where
  "daemon_args = \<lparr> port = 9222, daemon = True \<rparr>"

text \<open>The same machine with another process table: pids 7 and 10 cannot be read, pid 8
  is a shell, pid 9 is the application.\<close>

definition scan_world :: world where
  "scan_world =
     linux_world
       \<lparr> process_iter := [7, 8, 9, 10],
         proc_name := (\<lambda>p. if p = 7 then Inl AccessDenied else if p = 10 then Inl NoSuchProcess
                            else if p = 8 then Inr ''bash'' else Inr ''Claude''),
         proc_cmdline := (\<lambda>p. if p = 7 \<or> p = 10 then Inl ZombieProcess
                               else if p = 8 then Inr [''bash'', ''-c'', ''echo Clau de'']
                               else Inr [''/opt/Claude/claude'']) \<rparr>"

text \<open>That table without the shell: every other candidate raises.\<close>

definition throwing_world :: world where
  "throwing_world = scan_world \<lparr> process_iter := [7, 9, 10] \<rparr>"

text \<open>The same machine where the application (pid 50) belongs to another user: its
  executable path and its name cannot be read.\<close>

definition denied_world :: world where
  "denied_world =
     linux_world
       \<lparr> proc_name := (\<lambda>p. if p = 50 then Inl AccessDenied
                            else Inr (if p = 2 then ''systemd'' else if p = 100 then ''python3'' else ''node'')),
         proc_exe := (\<lambda>p. if p = 50 then Inl AccessDenied
                           else Inr (if p = 2 then ''/usr/lib/systemd/systemd''
                                     else if p = 100 then ''/usr/bin/python3'' else ''/usr/bin/node'')) \<rparr>"

text \<open>A process table in which every process is its own parent.\<close>

definition cycle_world :: world where
  "cycle_world = linux_world \<lparr> proc_parent := (\<lambda>p. Inr (Some p)) \<rparr>"

text \<open>A Linux machine on which the server (pid 100) was started from a terminal; the
  desktop application is pid 50, named \<open>Claude\<close>, with the children 51 and 52. After
  the terminate signals pid 52 is still alive when the wait ends.\<close>

definition desktop_world :: world where
  "desktop_world =
     linux_world
       \<lparr> process_iter := [2, 50, 51, 52, 100],
         proc_name := (\<lambda>p. Inr (if p = 2 then ''systemd'' else if p = 100 then ''python3'' else ''Claude'')),
         proc_cmdline := (\<lambda>p. Inr (if p = 2 then [''/sbin/init'']
                                   else if p = 100 then [''python3'', ''-m'', ''autoapprove'']
                                   else [''/opt/Claude/claude''])),
         proc_parent := (\<lambda>p. Inr (if p = 2 then None else if p = 51 \<or> p = 52 then Some 50 else Some 2)),
         proc_children := (\<lambda>p. Inr (if p = 50 then [51, 52] else [])),
         wait_procs := (\<lambda>ps t. Inr (filter (\<lambda>p. p \<noteq> 52) ps, filter (\<lambda>p. p = 52) ps)) \<rparr>"

text \<open>The same machine under macOS, with an \<open>osascript\<close> that cannot be launched.\<close>

definition mac_failing_world :: world where
  "mac_failing_world = desktop_world \<lparr> sys_platform := ''darwin'', subprocess_run := (\<lambda>cmd. Some OSError) \<rparr>"

text \<open>The Linux machine with a process table that is full: every fork fails.\<close>

definition no_fork_world :: world where
  "no_fork_world = linux_world \<lparr> os_fork_fails := (\<lambda>i. True) \<rparr>"

text \<open>The desktop machine with the application already listening on the debugger port.\<close>

definition listening_world :: world where
  "listening_world = desktop_world \<lparr> is_port_open := (\<lambda>p. True) \<rparr>"

text \<open>A Linux machine with no process of the application.\<close>

definition bare_world :: world where
  "bare_world = linux_world \<lparr> proc_name := (\<lambda>p. Inr ''bash'') \<rparr>"

text \<open>A macOS machine on which \<open>osascript\<close> runs.\<close>

definition mac_world :: world where
  "mac_world = linux_world \<lparr> sys_platform := ''darwin'' \<rparr>"

text \<open>A configuration with three trusted tools.\<close>

definition three_tools :: "(string list) configuration" where
  "three_tools = \<lparr> claude_config = [''read_file'', ''list_directory'', ''search''],
                   get_trusted_tools = (\<lambda>cfg. Inr cfg) \<rparr>"

subsection \<open>Strings\<close>

lemma py_startswith_iff: "py_startswith s p \<longleftrightarrow> (\<exists>r. s = p @ r)"
  by (induction s p rule: py_startswith.induct) auto


lemma py_in_iff: "py_in sub s \<longleftrightarrow> (\<exists>a b. s = a @ sub @ b)"
proof (induction s)
  case Nil
  then show ?case by auto
next
  case (Cons c s)
  show ?case
  proof
    assume "py_in sub (c # s)"
    then consider "py_startswith (c # s) sub" | "py_in sub s" by auto
    then show "\<exists>a b. c # s = a @ sub @ b"
    proof cases
      case 1
      then obtain r where "c # s = sub @ r" by (auto simp: py_startswith_iff)
      then have "c # s = [] @ sub @ r" by simp
      then show ?thesis by blast
    next
      case 2
      then obtain a b where "s = a @ sub @ b" using Cons.IH by auto
      then have "c # s = (c # a) @ sub @ b" by simp
      then show ?thesis by blast
    qed
  next
    assume "\<exists>a b. c # s = a @ sub @ b"
    then obtain a b where ab: "c # s = a @ sub @ b" by blast
    show "py_in sub (c # s)"
    proof (cases a)
      case Nil
      then have "py_startswith (c # s) sub" using ab by (auto simp: py_startswith_iff)
      then show ?thesis by simp
    next
      case (Cons x a')
      then have "s = a' @ sub @ b" using ab by simp
      then have "py_in sub s" using Cons.IH by blast
      then show ?thesis by simp
    qed
  qed
qed

lemma hex_digit_alphabet: "hex_digit k \<in> escape_alphabet"
proof -
  have "k mod 16 < length ''0123456789abcdef''" by simp
  then have "''0123456789abcdef'' ! (k mod 16) \<in> set ''0123456789abcdef''"
    by (rule nth_mem)
  then show ?thesis unfolding hex_digit_def escape_alphabet_def by blast
qed

lemma py_repr_quote_cases: "py_repr_quote s = squote \<or> py_repr_quote s = dquote"
  by (simp add: py_repr_quote_def)

lemma py_repr_char_cases:
  assumes "q = squote \<or> q = dquote"
  shows "(py_repr_char q c = [c] \<and> c \<noteq> q \<and> c \<noteq> backslash) \<or>
         (\<exists>r. py_repr_char q c = backslash # r \<and> set r \<subseteq> escape_alphabet)"
proof -
  have h: "hex_digit (of_char c div 16) \<in> escape_alphabet" "hex_digit (of_char c) \<in> escape_alphabet"
    by (rule hex_digit_alphabet)+
  have q: "q \<in> escape_alphabet" "backslash \<in> escape_alphabet"
    using assms by (auto simp: escape_alphabet_def)
  show ?thesis
    using h q unfolding py_repr_char_def
    by (auto simp: escape_alphabet_def)
qed

lemma py_repr_char_copied:
  assumes "py_printable c" "c \<noteq> backslash" "c \<noteq> q"
  shows "py_repr_char q c = [c]"
  using assms by (auto simp: py_repr_char_def py_printable_def)


lemma escaped_simps:
  "escaped q [] = []" "escaped q (c # s) = py_repr_char q c @ escaped q s"
  "escaped q (s @ t) = escaped q s @ escaped q t"
  by (simp_all add: escaped_def)

lemma startswith_through_escape:
  assumes "q = squote \<or> q = dquote"
    and "list_all (\<lambda>c. c \<noteq> backslash \<and> c \<noteq> q) n"
    and "py_startswith (escaped q s @ q # rest) n"
  shows "py_startswith s n"
  using assms(2,3)
proof (induction s arbitrary: n)
  case Nil
  then show ?case by (cases n) (auto simp: escaped_simps)
next
  case (Cons c s)
  show ?case
  proof (cases n)
    case Nil
    then show ?thesis by simp
  next
    case (Cons x n')
    from py_repr_char_cases[OF assms(1), of c]
    show ?thesis
    proof
      assume "py_repr_char q c = [c] \<and> c \<noteq> q \<and> c \<noteq> backslash"
      then show ?thesis
        using Cons.prems Cons.IH[of n'] Cons by (auto simp: escaped_simps)
    next
      assume "\<exists>r. py_repr_char q c = backslash # r \<and> set r \<subseteq> escape_alphabet"
      then show ?thesis
        using Cons.prems Cons by (auto simp: escaped_simps)
    qed
  qed
qed

lemma py_in_skip:
  assumes "n \<noteq> []" "hd n \<notin> set e" "py_in n (e @ y)"
  shows "py_in n y"
  using assms(2,3)
proof (induction e)
  case Nil
  then show ?case by simp
next
  case (Cons c e)
  have "\<not> py_startswith (c # e @ y) n"
    using assms(1) Cons.prems(1) by (cases n) auto
  then show ?case using Cons by auto
qed

lemma py_in_through_escape:
  assumes q: "q = squote \<or> q = dquote"
    and n: "copied_needle n"
    and "py_in n (escaped q s @ q # rest)"
  shows "py_in n s \<or> py_in n rest"
  using assms(3)
proof (induction s)
  case Nil
  have "hd n \<notin> set [q]" using n q by (auto simp: copied_needle_def escape_alphabet_def)
  then have "py_in n rest"
    using py_in_skip[of n "[q]" rest] n Nil by (simp add: copied_needle_def escaped_simps)
  then show ?case ..
next
  case (Cons c s)
  have nq: "list_all (\<lambda>c. c \<noteq> backslash \<and> c \<noteq> q) n"
    using n q by (auto simp: copied_needle_def list_all_iff)
  from py_repr_char_cases[OF q, of c]
  show ?case
  proof
    assume c: "py_repr_char q c = [c] \<and> c \<noteq> q \<and> c \<noteq> backslash"
    then have "py_startswith (escaped q (c # s) @ q # rest) n \<or> py_in n (escaped q s @ q # rest)"
      using Cons.prems by (simp add: escaped_simps)
    then show ?thesis
    proof
      assume "py_startswith (escaped q (c # s) @ q # rest) n"
      then have "py_startswith (c # s) n" by (rule startswith_through_escape[OF q nq])
      then show ?thesis by simp
    next
      assume "py_in n (escaped q s @ q # rest)"
      then show ?thesis using Cons.IH by auto
    qed
  next
    assume "\<exists>r. py_repr_char q c = backslash # r \<and> set r \<subseteq> escape_alphabet"
    then obtain r where r: "py_repr_char q c = backslash # r" "set r \<subseteq> escape_alphabet" by blast
    have "hd n \<notin> set (backslash # r)"
      using n r(2) by (auto simp: copied_needle_def escape_alphabet_def)
    moreover have "py_in n ((backslash # r) @ escaped q s @ q # rest)"
      using Cons.prems r(1) by (simp add: escaped_simps)
    ultimately have "py_in n (escaped q s @ q # rest)"
      using py_in_skip n by (metis copied_needle_def)
    then show ?thesis using Cons.IH by auto
  qed
qed

lemma py_in_repr_str:
  assumes n: "copied_needle n" and "py_in n (py_repr_str a @ rest)"
  shows "py_in n a \<or> py_in n rest"
proof -
  let ?q = "py_repr_quote a"
  have q: "?q = squote \<or> ?q = dquote" by (rule py_repr_quote_cases)
  have "hd n \<notin> set [?q]" using n q by (auto simp: copied_needle_def escape_alphabet_def)
  moreover have "py_in n ([?q] @ escaped ?q a @ ?q # rest)"
    using assms(2) by (simp add: py_repr_str_def escaped_def)
  ultimately have "py_in n (escaped ?q a @ ?q # rest)"
    using py_in_skip n by (metis copied_needle_def)
  then show ?thesis by (rule py_in_through_escape[OF q n])
qed

lemma py_in_join:
  assumes n: "copied_needle n"
  shows "py_in n (py_join '', '' (map py_repr_str xs) @ rest) \<Longrightarrow> (\<exists>a\<in>set xs. py_in n a) \<or> py_in n rest"
proof (induction xs rule: induct_list012)
  case 1
  then show ?case by simp
next
  case (2 a)
  then show ?case using py_in_repr_str[OF n, of a rest] by auto
next
  case (3 a b xs)
  let ?tail = "py_join '', '' (map py_repr_str (b # xs)) @ rest"
  have "py_in n (py_repr_str a @ '', '' @ ?tail)" using 3(3) by simp
  then have "py_in n a \<or> py_in n ('', '' @ ?tail)" by (rule py_in_repr_str[OF n])
  then show ?case
  proof
    assume "py_in n a" then show ?thesis by auto
  next
    assume a: "py_in n ('', '' @ ?tail)"
    have "hd n \<notin> set '', ''" using n by (auto simp: copied_needle_def escape_alphabet_def)
    then have "py_in n ?tail" using py_in_skip a n by (metis copied_needle_def)
    then show ?thesis using 3(2) by auto
  qed
qed

lemma py_in_str_list_only_if:
  assumes n: "copied_needle n" and "py_in n (py_str_list xs)"
  shows "\<exists>a\<in>set xs. py_in n a"
proof -
  have h: "hd n \<notin> set ''[''" "hd n \<notin> set '']''" "n \<noteq> []"
    using n by (auto simp: copied_needle_def escape_alphabet_def)
  have "py_in n (''['' @ py_join '', '' (map py_repr_str xs) @ '']'')"
    using assms(2) by (simp add: py_str_list_def)
  then have "py_in n (py_join '', '' (map py_repr_str xs) @ '']'')"
    using py_in_skip h by metis
  then have "(\<exists>a\<in>set xs. py_in n a) \<or> py_in n '']''" by (rule py_in_join[OF n])
  moreover have "\<not> py_in n '']''" using h by (cases n) auto
  ultimately show ?thesis by blast
qed

lemma escaped_copied:
  assumes "list_all (\<lambda>c. py_printable c \<and> c \<noteq> backslash \<and> c \<noteq> q) n"
  shows "escaped q n = n"
  using assms by (induction n) (auto simp: escaped_simps py_repr_char_copied)

lemma py_in_repr_str_if:
  assumes n: "copied_needle n" and "py_in n a"
  shows "py_in n (py_repr_str a)"
proof -
  let ?q = "py_repr_quote a"
  have q: "?q = squote \<or> ?q = dquote" by (rule py_repr_quote_cases)
  have "list_all (\<lambda>c. py_printable c \<and> c \<noteq> backslash \<and> c \<noteq> ?q) n"
    using n q by (auto simp: copied_needle_def list_all_iff)
  then have e: "escaped ?q n = n" by (rule escaped_copied)
  obtain u v where "a = u @ n @ v" using assms(2) by (auto simp: py_in_iff)
  then have "py_repr_str a = (?q # escaped ?q u) @ n @ (escaped ?q v @ [?q])"
    using e by (simp add: py_repr_str_def escaped_def)
  then show ?thesis unfolding py_in_iff by blast
qed

lemma py_in_join_if:
  assumes "a \<in> set xs" "py_in n (f a)"
  shows "py_in n (py_join sep (map f xs))"
  using assms(1)
proof (induction xs rule: induct_list012)
  case 1
  then show ?case by simp
next
  case (2 x)
  then show ?case using assms(2) by simp
next
  case (3 x y zs)
  obtain u v where uv: "f a = u @ n @ v" using assms(2) by (auto simp: py_in_iff)
  show ?case
  proof (cases "a = x")
    case True
    then have "py_join sep (map f (x # y # zs)) = u @ n @ (v @ sep @ py_join sep (map f (y # zs)))"
      using uv by simp
    then show ?thesis unfolding py_in_iff by blast
  next
    case False
    then have "py_in n (py_join sep (map f (y # zs)))" using 3 by auto
    then obtain u' v' where "py_join sep (map f (y # zs)) = u' @ n @ v'" by (auto simp: py_in_iff)
    then have "py_join sep (map f (x # y # zs)) = (f x @ sep @ u') @ n @ v'" by simp
    then show ?thesis unfolding py_in_iff by blast
  qed
qed

lemma py_in_str_list_if:
  assumes n: "copied_needle n" and "a \<in> set xs" "py_in n a"
  shows "py_in n (py_str_list xs)"
proof -
  have "py_in n (py_join '', '' (map py_repr_str xs))"
    using assms(2) py_in_repr_str_if[OF n assms(3)] by (rule py_in_join_if)
  then obtain u v where "py_join '', '' (map py_repr_str xs) = u @ n @ v" by (auto simp: py_in_iff)
  then have "py_str_list xs = (''['' @ u) @ n @ (v @ '']'')" by (simp add: py_str_list_def)
  then show ?thesis unfolding py_in_iff by blast
qed

lemma py_in_str_list_iff:
  "copied_needle n \<Longrightarrow> py_in n (py_str_list xs) \<longleftrightarrow> (\<exists>a\<in>set xs. py_in n a)"
  using py_in_str_list_only_if py_in_str_list_if by blast

lemma copied_needle_Claude: "copied_needle ''Claude''" "copied_needle ''Claude.app''" "copied_needle ''Claude.exe''"
  by (simp_all add: copied_needle_def escape_alphabet_def py_printable_def backslash_def squote_def dquote_def)

subsection \<open>Control Server\<close>

text \<open>
  C10: whatever list of strings the configuration collaborator yields for the loaded
  configuration, \<open>autoapproved_tools\<close> returns that list: the same entries in the same
  order, nothing added, dropped or changed.
\<close>

theorem autoapproved_tools_exact:
  "get_trusted_tools c (claude_config c) = Inr tools \<Longrightarrow> autoapproved_tools c = Inr tools"
  by (simp add: autoapproved_tools_def)

theorem autoapproved_tools_exact_witness:
  "get_trusted_tools three_tools (claude_config three_tools) = Inr [''read_file'', ''list_directory'', ''search'']
   \<and> autoapproved_tools three_tools = Inr [''read_file'', ''list_directory'', ''search'']"
proof -
  have h: "get_trusted_tools three_tools (claude_config three_tools) = Inr [''read_file'', ''list_directory'', ''search'']"
    by (simp add: three_tools_def)
  show ?thesis using h autoapproved_tools_exact [OF h] by simp
qed

subsection \<open>Process Locator: the scan\<close>

lemma find_scan_Some:
  "find_scan w ps = Inr (Some p) \<Longrightarrow> p \<in> set ps \<and> claude_candidate w p = Inr True"
  by (induction ps) (auto split: sum.splits bool.splits if_splits)

lemma candidate_reads:
  assumes "claude_candidate w p = Inr True"
  shows "(\<exists>n. proc_name w p = Inr n \<and> name_identifies (sys_platform w) n) \<or>
         (\<exists>c. proc_cmdline w p = Inr c \<and> cmdline_identifies (sys_platform w) c)"
  using assms
  unfolding claude_candidate_def name_identifies_def cmdline_identifies_def
  by (auto split: if_splits sum.splits simp: py_in_str_list_iff copied_needle_Claude)

lemma candidate_valid:
  assumes "proc_name w p = Inr n" "proc_cmdline w p = Inr c"
    and "name_identifies (sys_platform w) n \<or> cmdline_identifies (sys_platform w) c"
  shows "claude_candidate w p = Inr True"
  using assms
  unfolding claude_candidate_def name_identifies_def cmdline_identifies_def
  by (auto split: if_splits simp: py_in_str_list_iff copied_needle_Claude)

lemma candidate_raises:
  "claude_candidate w p = Inl e \<Longrightarrow> proc_name w p = Inl e \<or> proc_cmdline w p = Inl e"
  unfolding claude_candidate_def
  by (auto split: if_splits sum.splits)

lemma find_scan_tolerant:
  assumes "\<forall>q\<in>set ps. \<forall>e. claude_candidate w q = Inl e \<longrightarrow> tolerated e"
  shows "find_scan w ps = Inr (find (\<lambda>q. claude_candidate w q = Inr True) ps)"
  using assms
  by (induction ps) (auto split: sum.splits bool.splits)

text \<open>
  C8: a process of the scanned table whose name and whose command line hold no
  app-identifying string for the current platform is never the result of
  \<open>find_claude_process\<close>. (A read that raises yields no name or command line.) The
  command line is tested through \<open>str\<close> of the argument list; the quoting and the
  escapes of that text add no occurrence of the strings searched for.
\<close>

theorem find_claude_process_never_unidentified:
  assumes "\<forall>n. proc_name w p = Inr n \<longrightarrow> \<not> name_identifies (sys_platform w) n"
    and "\<forall>c. proc_cmdline w p = Inr c \<longrightarrow> \<not> cmdline_identifies (sys_platform w) c"
  shows "find_claude_process w \<noteq> Inr (Some p)"
proof
  assume "find_claude_process w = Inr (Some p)"
  then have "claude_candidate w p = Inr True"
    using find_scan_Some by (simp add: find_claude_process_def)
  then show False using candidate_reads assms by blast
qed

lemma scan_world_simps:
  "sys_platform scan_world = ''linux''"
  "process_iter scan_world = [7, 8, 9, 10]"
  "proc_name scan_world 7 = Inl AccessDenied"
  "proc_name scan_world 8 = Inr ''bash''"
  "proc_name scan_world 9 = Inr ''Claude''"
  "proc_name scan_world 10 = Inl NoSuchProcess"
  "proc_cmdline scan_world 7 = Inl ZombieProcess"
  "proc_cmdline scan_world 8 = Inr [''bash'', ''-c'', ''echo Clau de'']"
  "proc_cmdline scan_world 9 = Inr [''/opt/Claude/claude'']"
  "proc_cmdline scan_world 10 = Inl ZombieProcess"
  by (simp_all add: scan_world_def linux_world_def)

theorem find_claude_process_never_unidentified_witness:
  "proc_name scan_world 8 = Inr ''bash'' \<and> \<not> name_identifies ''linux'' ''bash'' \<and>
   proc_cmdline scan_world 8 = Inr [''bash'', ''-c'', ''echo Clau de''] \<and>
   \<not> cmdline_identifies ''linux'' [''bash'', ''-c'', ''echo Clau de''] \<and>
   8 \<in> set (process_iter scan_world) \<and>
   find_claude_process scan_world \<noteq> Inr (Some 8)"
proof -
  have a: "\<forall>n. proc_name scan_world 8 = Inr n \<longrightarrow> \<not> name_identifies (sys_platform scan_world) n"
    by (simp add: scan_world_simps name_identifies_def)
  have b: "\<forall>c. proc_cmdline scan_world 8 = Inr c \<longrightarrow> \<not> cmdline_identifies (sys_platform scan_world) c"
    by (simp add: scan_world_simps cmdline_identifies_def)
  from find_claude_process_never_unidentified [OF a b] a b show ?thesis
    by (simp add: scan_world_simps)
qed

text \<open>
  C9: when every failing read of a name or command line in the table is one of the
  three tolerated kinds, \<open>find_claude_process\<close> raises nothing and runs over the whole
  table: its result is the first candidate that matches. So if the table holds a
  process whose reads succeed and that is identified, some identified process of the
  table is returned; and if every other candidate raises, that process is the result.
\<close>

theorem find_claude_process_skips_failures:
  assumes "\<forall>q\<in>set (process_iter w).
             (\<forall>e. proc_name w q = Inl e \<longrightarrow> tolerated e) \<and> (\<forall>e. proc_cmdline w q = Inl e \<longrightarrow> tolerated e)"
  shows "find_claude_process w = Inr (find (\<lambda>q. claude_candidate w q = Inr True) (process_iter w)) \<and>
         (p \<in> set (process_iter w) \<and> proc_name w p = Inr n \<and> proc_cmdline w p = Inr c \<and>
          (name_identifies (sys_platform w) n \<or> cmdline_identifies (sys_platform w) c) \<longrightarrow>
            (\<exists>q\<in>set (process_iter w). find_claude_process w = Inr (Some q) \<and>
               ((\<exists>m. proc_name w q = Inr m \<and> name_identifies (sys_platform w) m) \<or>
                (\<exists>d. proc_cmdline w q = Inr d \<and> cmdline_identifies (sys_platform w) d))) \<and>
            ((\<forall>q\<in>set (process_iter w). q \<noteq> p \<longrightarrow> (\<exists>e. proc_name w q = Inl e)) \<longrightarrow>
               find_claude_process w = Inr (Some p)))"
proof -
  let ?ok = "\<lambda>q. claude_candidate w q = Inr True"
  have tol: "\<forall>q\<in>set (process_iter w). \<forall>e. claude_candidate w q = Inl e \<longrightarrow> tolerated e"
    using assms candidate_raises by blast
  then have scan: "find_claude_process w = Inr (find ?ok (process_iter w))"
    unfolding find_claude_process_def by (rule find_scan_tolerant)
  {
    assume p: "p \<in> set (process_iter w)" "proc_name w p = Inr n" "proc_cmdline w p = Inr c"
      "name_identifies (sys_platform w) n \<or> cmdline_identifies (sys_platform w) c"
    then have "?ok p" using candidate_valid by blast
    with p(1) obtain q where q: "find ?ok (process_iter w) = Some q"
      by (cases "find ?ok (process_iter w)") (auto simp: find_None_iff)
    then have qq: "q \<in> set (process_iter w)" "?ok q"
      by (auto simp: find_Some_iff)
    have 1: "\<exists>q\<in>set (process_iter w). find_claude_process w = Inr (Some q) \<and>
               ((\<exists>m. proc_name w q = Inr m \<and> name_identifies (sys_platform w) m) \<or>
                (\<exists>d. proc_cmdline w q = Inr d \<and> cmdline_identifies (sys_platform w) d))"
      using scan q qq candidate_reads by auto
    have 2: "(\<forall>q\<in>set (process_iter w). q \<noteq> p \<longrightarrow> (\<exists>e. proc_name w q = Inl e)) \<longrightarrow>
               find_claude_process w = Inr (Some p)"
    proof
      assume only: "\<forall>q\<in>set (process_iter w). q \<noteq> p \<longrightarrow> (\<exists>e. proc_name w q = Inl e)"
      have "\<not> (\<exists>e. proc_name w q = Inl e)"
        using qq(2) unfolding claude_candidate_def by (auto split: if_splits sum.splits)
      then have "q = p" using only qq(1) by blast
      then show "find_claude_process w = Inr (Some p)" using scan q by simp
    qed
    note 1 2
  }
  then show ?thesis using scan by blast
qed

lemma throwing_world_simps:
  "sys_platform throwing_world = ''linux''"
  "process_iter throwing_world = [7, 9, 10]"
  "proc_name throwing_world 7 = Inl AccessDenied"
  "proc_name throwing_world 9 = Inr ''Claude''"
  "proc_name throwing_world 10 = Inl NoSuchProcess"
  "proc_cmdline throwing_world 7 = Inl ZombieProcess"
  "proc_cmdline throwing_world 9 = Inr [''/opt/Claude/claude'']"
  "proc_cmdline throwing_world 10 = Inl ZombieProcess"
  by (simp_all add: throwing_world_def scan_world_def linux_world_def)

theorem find_claude_process_skips_failures_witness:
  "proc_name throwing_world 7 = Inl AccessDenied \<and> proc_name throwing_world 10 = Inl NoSuchProcess \<and>
   proc_cmdline throwing_world 7 = Inl ZombieProcess \<and> proc_cmdline throwing_world 10 = Inl ZombieProcess \<and>
   proc_name throwing_world 9 = Inr ''Claude'' \<and> proc_cmdline throwing_world 9 = Inr [''/opt/Claude/claude''] \<and>
   name_identifies (sys_platform throwing_world) ''Claude'' \<and>
   find_claude_process throwing_world = Inr (Some 9)"
proof -
  have tol: "\<forall>q\<in>set (process_iter throwing_world).
      (\<forall>e. proc_name throwing_world q = Inl e \<longrightarrow> tolerated e) \<and>
      (\<forall>e. proc_cmdline throwing_world q = Inl e \<longrightarrow> tolerated e)"
    by (simp add: throwing_world_simps tolerated_def)
  have ok: "name_identifies (sys_platform throwing_world) ''Claude''"
    by (simp add: throwing_world_simps name_identifies_def)
  have others: "\<forall>q\<in>set (process_iter throwing_world). q \<noteq> 9 \<longrightarrow> (\<exists>e. proc_name throwing_world q = Inl e)"
    by (simp add: throwing_world_simps)
  have mem: "9 \<in> set (process_iter throwing_world)" by (simp add: throwing_world_simps)
  have reads: "proc_name throwing_world 9 = Inr ''Claude''"
    "proc_cmdline throwing_world 9 = Inr [''/opt/Claude/claude'']"
    by (simp_all add: throwing_world_simps)
  from find_claude_process_skips_failures [OF tol, of 9 "''Claude''" "[''/opt/Claude/claude'']"]
    ok others mem reads
  have "find_claude_process throwing_world = Inr (Some 9)"
    by blast
  then show ?thesis using ok by (simp add: throwing_world_simps)
qed

subsection \<open>Process Locator: the parent-chain walks\<close>

lemma cycle_world_simps:
  "os_getpid cycle_world = 100"
  "proc_parent cycle_world p = Inr (Some p)"
  "proc_exe cycle_world 100 = Inr ''/usr/bin/python3''"
  "proc_name cycle_world 100 = Inr ''python3''"
  by (simp_all add: cycle_world_def linux_world_def)

lemma exe_walk_cycle_aux:
  assumes "exe_walk w cur = Some r"
  shows "\<not> (w = cycle_world \<and> cur = Some 100)"
proof (rule exe_walk.raw_induct[OF _ assms, where P = "\<lambda>w cur r. \<not> (w = cycle_world \<and> cur = Some 100)"])
  fix self w cur r
  assume IH: "\<And>w cur r. self w cur = Some r \<Longrightarrow> \<not> (w = cycle_world \<and> cur = Some 100)"
    and step: "(case cur of
        None \<Rightarrow> Some (Inr None)
      | Some p \<Rightarrow>
          (case read_exe_path w p of
             Inl e \<Rightarrow> Some (Inl e)
           | Inr exe_path \<Rightarrow>
               if py_in ''Contents/MacOS/Claude'' exe_path then Some (Inr (Some p))
               else (case proc_parent w p of
                       Inl e \<Rightarrow> Some (Inl e)
                     | Inr nxt \<Rightarrow> self w nxt))) = Some r"
  show "\<not> (w = cycle_world \<and> cur = Some 100)"
  proof
    assume c: "w = cycle_world \<and> cur = Some 100"
    then have "self cycle_world (Some 100) = Some r"
      using step by (simp add: cycle_world_simps read_exe_path_def)
    then show False using IH by blast
  qed
qed

lemma name_walk_cycle_aux:
  assumes "name_walk w cur c = Some r"
  shows "\<not> (w = cycle_world \<and> cur = Some 100)"
proof (rule name_walk.raw_induct[OF _ assms, where P = "\<lambda>w cur c r. \<not> (w = cycle_world \<and> cur = Some 100)"])
  fix self w cur c r
  assume IH: "\<And>w cur c r. self w cur c = Some r \<Longrightarrow> \<not> (w = cycle_world \<and> cur = Some 100)"
    and step: "(case cur of
        None \<Rightarrow> Some (Inr c)
      | Some p \<Rightarrow>
          (case proc_name w p of
             Inl e \<Rightarrow> Some (Inl e)
           | Inr n \<Rightarrow>
               (case proc_parent w p of
                  Inl e \<Rightarrow> Some (Inl e)
                | Inr nxt \<Rightarrow>
                    self w nxt
                      (if py_lower n = ''claude'' \<or> py_lower n = ''claude.exe'' then Some p
                       else c)))) = Some r"
  show "\<not> (w = cycle_world \<and> cur = Some 100)"
  proof
    assume c: "w = cycle_world \<and> cur = Some 100"
    then have "\<exists>c'. self cycle_world (Some 100) c' = Some r"
      using step by (auto simp add: cycle_world_simps)
    then show False using IH by blast
  qed
qed

lemma exe_walk_None: "exe_walk w None = Some (Inr None)"
  by (subst exe_walk.simps) simp

lemma name_walk_None: "name_walk w None c = Some (Inr c)"
  by (subst name_walk.simps) simp

lemma exe_walk_ends: "chain_ends w cur \<Longrightarrow> \<exists>r. exe_walk w cur = Some r"
proof (induction rule: chain_ends.induct)
  case no_process
  show ?case by (subst exe_walk.simps) simp
next
  case (parent_raises p e)
  then show ?case by (subst exe_walk.simps) (simp split: sum.splits)
next
  case (parent_step p nxt)
  then show ?case by (subst exe_walk.simps) (simp split: sum.splits)
qed

lemma name_walk_ends: "chain_ends w cur \<Longrightarrow> \<exists>r. name_walk w cur c = Some r"
proof (induction arbitrary: c rule: chain_ends.induct)
  case no_process
  show ?case by (subst name_walk.simps) simp
next
  case (parent_raises p e)
  then show ?case by (subst name_walk.simps) (simp split: sum.splits)
next
  case (parent_step p nxt)
  then show ?case by (subst name_walk.simps) (simp split: sum.splits)
qed

text \<open>
  C4, as amended: from every starting process whose parent chain ends (it reaches a
  process with no parent, or a read of the parent raises), both walks of
  \<open>get_main_claude_process\<close> return, and so does the function.
\<close>

theorem parent_walks_return:
  assumes "chain_ends w (Some p)"
  shows "(\<exists>r. exe_walk w (Some p) = Some r) \<and> (\<exists>r. name_walk w (Some p) None = Some r) \<and>
         (p = os_getpid w \<longrightarrow> (\<exists>r. get_main_claude_process w = Some r))"
proof -
  obtain r1 where r1: "exe_walk w (Some p) = Some r1" using exe_walk_ends[OF assms] by blast
  obtain r2 where r2: "name_walk w (Some p) None = Some r2" using name_walk_ends[OF assms] by blast
  have "p = os_getpid w \<Longrightarrow> \<exists>r. get_main_claude_process w = Some r"
    using r1 r2 unfolding get_main_claude_process_def
    by (auto split: sum.splits option.splits)
  then show ?thesis using r1 r2 by blast
qed

lemma linux_world_simps:
  "sys_platform linux_world = ''linux''"
  "os_getpid linux_world = 100"
  "process_iter linux_world = [2, 50, 100, 101]"
  "proc_parent linux_world 100 = Inr (Some 50)"
  "proc_parent linux_world 50 = Inr (Some 2)"
  "proc_parent linux_world 2 = Inr None"
  "proc_exe linux_world 100 = Inr ''/usr/bin/python3''"
  "proc_exe linux_world 50 = Inr ''/usr/bin/claude-desktop''"
  "proc_exe linux_world 2 = Inr ''/usr/lib/systemd/systemd''"
  "proc_name linux_world 100 = Inr ''python3''"
  "proc_name linux_world 50 = Inr ''claude''"
  "proc_name linux_world 2 = Inr ''systemd''"
  by (simp_all add: linux_world_def)

lemma py_lower_names:
  "py_lower ''python3'' = ''python3''" "py_lower ''claude'' = ''claude''" "py_lower ''systemd'' = ''systemd''"
  by code_simp+

lemma linux_world_chain: "chain_ends linux_world (Some 100)"
proof -
  have "chain_ends linux_world (Some 2)"
    by (rule parent_step[of _ _ None]) (simp_all add: linux_world_simps no_process)
  then have "chain_ends linux_world (Some 50)"
    by (rule parent_step[rotated]) (simp add: linux_world_simps)
  then show ?thesis
    by (rule parent_step[rotated]) (simp add: linux_world_simps)
qed

lemma linux_world_main_process: "get_main_claude_process linux_world = Some (Inr (Some 50))"
proof -
  have 1: "exe_walk linux_world (Some 2) = Some (Inr None)"
    by (subst exe_walk.simps) (simp add: linux_world_simps read_exe_path_def exe_walk_None)
  have 2: "exe_walk linux_world (Some 50) = Some (Inr None)"
    by (subst exe_walk.simps) (simp add: linux_world_simps read_exe_path_def 1)
  have 3: "exe_walk linux_world (Some 100) = Some (Inr None)"
    by (subst exe_walk.simps) (simp add: linux_world_simps read_exe_path_def 2)
  have 4: "name_walk linux_world (Some 2) c = Some (Inr c)" for c
    by (subst name_walk.simps) (simp add: linux_world_simps py_lower_names name_walk_None)
  have 5: "name_walk linux_world (Some 50) c = Some (Inr (Some 50))" for c
    by (subst name_walk.simps) (simp add: linux_world_simps py_lower_names 4)
  have 6: "name_walk linux_world (Some 100) None = Some (Inr (Some 50))"
    by (subst name_walk.simps) (simp add: linux_world_simps py_lower_names 5)
  show ?thesis by (simp add: get_main_claude_process_def linux_world_simps 3 6)
qed

theorem parent_walks_return_witness:
  "chain_ends linux_world (Some 100) \<and> get_main_claude_process linux_world = Some (Inr (Some 50))"
proof -
  from parent_walks_return [OF linux_world_chain]
  obtain r where "get_main_claude_process linux_world = Some r"
    by (auto simp: linux_world_simps)
  then show ?thesis using linux_world_chain linux_world_main_process by simp
qed

text \<open>
  C4 as stated fails: in a table where the starting process is its own parent and no
  executable path matches, neither walk leaves its loop, and \<open>get_main_claude_process\<close>
  does not return.
\<close>

theorem parent_walks_cycle_counterexample:
  "exe_walk cycle_world (Some 100) = None \<and> name_walk cycle_world (Some 100) None = None \<and>
   get_main_claude_process cycle_world = None"
proof -
  have 1: "exe_walk cycle_world (Some 100) = None"
    using exe_walk_cycle_aux by (cases "exe_walk cycle_world (Some 100)") auto
  have 2: "name_walk cycle_world (Some 100) None = None"
    using name_walk_cycle_aux by (cases "name_walk cycle_world (Some 100) None") auto
  show ?thesis using 1 2 by (simp add: get_main_claude_process_def cycle_world_simps)
qed

lemma denied_world_simps:
  "sys_platform denied_world = ''linux''"
  "os_getpid denied_world = 100"
  "proc_parent denied_world 100 = Inr (Some 50)"
  "proc_parent denied_world 50 = Inr (Some 2)"
  "proc_parent denied_world 2 = Inr None"
  "proc_exe denied_world 100 = Inr ''/usr/bin/python3''"
  "proc_exe denied_world 50 = Inl AccessDenied"
  "proc_exe denied_world 2 = Inr ''/usr/lib/systemd/systemd''"
  "proc_name denied_world 100 = Inr ''python3''"
  "proc_name denied_world 50 = Inl AccessDenied"
  "is_port_open denied_world 9222 = False"
  by (simp_all add: denied_world_def linux_world_def)

lemma denied_world_exe_walk: "exe_walk denied_world (Some 100) = Some (Inr None)"
proof -
  have 1: "exe_walk denied_world (Some 2) = Some (Inr None)"
    by (subst exe_walk.simps) (simp add: denied_world_simps read_exe_path_def exe_walk_None)
  have 2: "exe_walk denied_world (Some 50) = Some (Inr None)"
    by (subst exe_walk.simps) (simp add: denied_world_simps read_exe_path_def tolerated_def 1)
  show ?thesis
    by (subst exe_walk.simps) (simp add: denied_world_simps read_exe_path_def 2)
qed

lemma denied_world_name_walk: "name_walk denied_world (Some 100) None = Some (Inl AccessDenied)"
proof -
  have 1: "name_walk denied_world (Some 50) c = Some (Inl AccessDenied)" for c
    by (subst name_walk.simps) (simp add: denied_world_simps)
  show ?thesis
    by (subst name_walk.simps) (simp add: denied_world_simps py_lower_names 1)
qed

text \<open>
  C2 fails on the second walk. The first walk reads the executable path inside a
  \<open>try\<close> and takes a tolerated failure as the empty path; the second walk reads the
  name with no handler. When the name of an ancestor cannot be read, the failure leaves
  \<open>get_main_claude_process\<close>, then \<open>kill_claude_process\<close> (the lookup stands before its
  \<open>try\<close>), then \<open>main\<close>.
\<close>

theorem name_walk_propagates_access_denied:
  "read_exe_path denied_world 50 = Inr [] \<and>
   exe_walk denied_world (Some 100) = Some (Inr None) \<and>
   get_main_claude_process denied_world = Some (Inl AccessDenied) \<and>
   kill_claude_process denied_world = ([], Some (Inl AccessDenied)) \<and>
   snd (main 0 denied_world plain_args 0) = Raised 0 AccessDenied"
proof -
  have g: "get_main_claude_process denied_world = Some (Inl AccessDenied)"
    by (simp add: get_main_claude_process_def denied_world_simps denied_world_exe_walk denied_world_name_walk)
  have k: "kill_claude_process denied_world = ([], Some (Inl AccessDenied))"
    by (simp add: kill_claude_process_def native_quit_def locate_claude_def g denied_world_simps after_def)
  have m: "snd (main 0 denied_world plain_args 0) = Raised 0 AccessDenied"
    by (simp add: k plain_args_def denied_world_simps after_def)
  have r: "read_exe_path denied_world 50 = Inr []"
    by (simp add: read_exe_path_def denied_world_simps tolerated_def)
  show ?thesis using g k m r denied_world_exe_walk by simp
qed

subsection \<open>Process Terminator\<close>














lemma signal_termination_unfold:
  assumes "proc_children w proc = Inr children" "terminate_children w children = (evs, r)"
  shows "signal_termination w proc =
     (if r \<noteq> Completes then (Children proc # evs, r)
      else if proc_terminate w proc \<noteq> None then
        (Children proc # evs @ [Eprint (TerminatingMain proc), Terminate proc], Raising (the (proc_terminate w proc)))
      else if proc = os_getpid w then
        (Children proc # evs @ [Eprint (TerminatingMain proc), Terminate proc], SelfSignalled)
      else
        after (Children proc # evs @ [Eprint (TerminatingMain proc), Terminate proc, WaitProcs (proc # children) 5])
          (case wait_procs w (proc # children) 5 of
             Inl e \<Rightarrow> ([], Raising e)
           | Inr (gone, alive) \<Rightarrow>
               if alive \<noteq> [] then after [Eprint (ForceKilling alive)] (kill_alive w alive)
               else ([], Completes)))"
  using assms by (cases r) (auto simp: signal_termination_def after_def)





text \<open>
  C5: on macOS and on Windows, when the platform's quit command is invoked and does not
  raise, \<open>kill_claude_process\<close> returns \<open>True\<close> at once: its only effect is that
  invocation, whatever the process table holds. An effect of the signal-based path
  (enumerating children, a terminate or kill signal, the wait) occurs only when the
  invocation raised.
\<close>

theorem native_quit_assumes_success:
  assumes "sys_platform w = ''darwin'' \<or> sys_platform w = ''win32''"
  shows "(subprocess_run w (native_cmd (sys_platform w)) = None \<longrightarrow>
            kill_claude_process w = ([SubprocessRun (native_cmd (sys_platform w))], Some (Inr True))) \<and>
         ((\<exists>ev\<in>set (fst (kill_claude_process w)). signal_event ev) \<longrightarrow>
            subprocess_run w (native_cmd (sys_platform w)) \<noteq> None)"
proof -
  have 1: "subprocess_run w (native_cmd (sys_platform w)) = None \<Longrightarrow>
            kill_claude_process w = ([SubprocessRun (native_cmd (sys_platform w))], Some (Inr True))"
    using assms by (auto simp: kill_claude_process_def native_quit_def native_cmd_def)
  have 2: "subprocess_run w (native_cmd (sys_platform w)) \<noteq> None"
    if "\<exists>ev\<in>set (fst (kill_claude_process w)). signal_event ev"
  proof
    assume "subprocess_run w (native_cmd (sys_platform w)) = None"
    then have "fst (kill_claude_process w) = [SubprocessRun (native_cmd (sys_platform w))]"
      using 1 by simp
    then show False using that by simp
  qed
  show ?thesis using 1 2 by blast
qed

lemma desktop_world_simps:
  "sys_platform desktop_world = ''linux''"
  "os_getpid desktop_world = 100"
  "process_iter desktop_world = [2, 50, 51, 52, 100]"
  "proc_name desktop_world 2 = Inr ''systemd''"
  "proc_name desktop_world 50 = Inr ''Claude''"
  "proc_name desktop_world 100 = Inr ''python3''"
  "proc_cmdline desktop_world 2 = Inr [''/sbin/init'']"
  "proc_exe desktop_world 2 = Inr ''/usr/lib/systemd/systemd''"
  "proc_exe desktop_world 100 = Inr ''/usr/bin/python3''"
  "proc_parent desktop_world 2 = Inr None"
  "proc_parent desktop_world 100 = Inr (Some 2)"
  "proc_children desktop_world 50 = Inr [51, 52]"
  "proc_terminate desktop_world p = None"
  "proc_kill desktop_world p = None"
  "wait_procs desktop_world [50, 51, 52] 5 = Inr ([50, 51], [52])"
  "subprocess_run desktop_world cmd = None"
  by (simp_all add: desktop_world_def linux_world_def)

lemma desktop_world_get_main: "get_main_claude_process desktop_world = Some (Inr None)"
proof -
  have 1: "exe_walk desktop_world (Some 2) = Some (Inr None)"
    by (subst exe_walk.simps) (simp add: desktop_world_simps read_exe_path_def exe_walk_None)
  have 2: "exe_walk desktop_world (Some 100) = Some (Inr None)"
    by (subst exe_walk.simps) (simp add: desktop_world_simps read_exe_path_def 1)
  have 3: "name_walk desktop_world (Some 2) c = Some (Inr c)" for c
    by (subst name_walk.simps) (simp add: desktop_world_simps py_lower_names name_walk_None)
  have 4: "name_walk desktop_world (Some 100) None = Some (Inr None)"
    by (subst name_walk.simps) (simp add: desktop_world_simps py_lower_names 3)
  show ?thesis by (simp add: get_main_claude_process_def desktop_world_simps 2 4)
qed

lemma desktop_world_find: "find_claude_process desktop_world = Inr (Some 50)"
  by (simp add: find_claude_process_def claude_candidate_def desktop_world_simps
      py_in_str_list_iff copied_needle_Claude)

lemma desktop_world_locate: "locate_claude desktop_world = Some (Inr (Some 50))"
  by (simp add: locate_claude_def desktop_world_get_main desktop_world_find)


lemma desktop_world_signal:
  "signal_termination desktop_world 50 =
     ([Children 50, Eprint (TerminatingChild 51), Terminate 51, Eprint (TerminatingChild 52), Terminate 52,
       Eprint (TerminatingMain 50), Terminate 50, WaitProcs [50, 51, 52] 5, Eprint (ForceKilling [52]), Kill 52],
      Completes)"
  by (simp add: signal_termination_def desktop_world_simps after_def)

lemma mac_failing_world_simps:
  "sys_platform mac_failing_world = ''darwin''"
  "os_getpid mac_failing_world = 100"
  "process_iter mac_failing_world = [2, 50, 51, 52, 100]"
  "subprocess_run mac_failing_world cmd = Some OSError"
  "proc_name mac_failing_world 2 = Inr ''systemd''"
  "proc_name mac_failing_world 50 = Inr ''Claude''"
  "proc_name mac_failing_world 100 = Inr ''python3''"
  "proc_cmdline mac_failing_world 2 = Inr [''/sbin/init'']"
  "proc_exe mac_failing_world 2 = Inr ''/usr/lib/systemd/systemd''"
  "proc_exe mac_failing_world 100 = Inr ''/usr/bin/python3''"
  "proc_parent mac_failing_world 2 = Inr None"
  "proc_parent mac_failing_world 100 = Inr (Some 2)"
  "proc_children mac_failing_world 50 = Inr [51, 52]"
  "proc_terminate mac_failing_world p = None"
  "proc_kill mac_failing_world p = None"
  "wait_procs mac_failing_world [50, 51, 52] 5 = Inr ([50, 51], [52])"
  by (simp_all add: mac_failing_world_def desktop_world_def linux_world_def)

lemma mac_failing_world_kill:
  "kill_claude_process mac_failing_world =
     ([SubprocessRun osascript_cmd, Eprint (AppleScriptQuitFailed OSError),
       Children 50, Eprint (TerminatingChild 51), Terminate 51, Eprint (TerminatingChild 52), Terminate 52,
       Eprint (TerminatingMain 50), Terminate 50, WaitProcs [50, 51, 52] 5, Eprint (ForceKilling [52]), Kill 52],
      Some (Inr True))"
proof -
  note s = mac_failing_world_simps
  have 1: "exe_walk mac_failing_world (Some 2) = Some (Inr None)"
    by (subst exe_walk.simps) (simp add: s read_exe_path_def exe_walk_None)
  have 2: "exe_walk mac_failing_world (Some 100) = Some (Inr None)"
    by (subst exe_walk.simps) (simp add: s read_exe_path_def 1)
  have 3: "name_walk mac_failing_world (Some 2) c = Some (Inr c)" for c
    by (subst name_walk.simps) (simp add: s py_lower_names name_walk_None)
  have 4: "name_walk mac_failing_world (Some 100) None = Some (Inr None)"
    by (subst name_walk.simps) (simp add: s py_lower_names 3)
  have g: "get_main_claude_process mac_failing_world = Some (Inr None)"
    by (simp add: get_main_claude_process_def s 2 4)
  have c2: "claude_candidate mac_failing_world 2 = Inr False"
    by (simp add: claude_candidate_def s py_in_str_list_iff copied_needle_Claude)
  have c50: "claude_candidate mac_failing_world 50 = Inr True"
    by (simp add: claude_candidate_def s)
  have f: "find_claude_process mac_failing_world = Inr (Some 50)"
    by (simp add: find_claude_process_def s c2 c50)
  have t: "signal_termination mac_failing_world 50 =
     ([Children 50, Eprint (TerminatingChild 51), Terminate 51, Eprint (TerminatingChild 52), Terminate 52,
       Eprint (TerminatingMain 50), Terminate 50, WaitProcs [50, 51, 52] 5, Eprint (ForceKilling [52]), Kill 52],
      Completes)"
    by (simp add: signal_termination_def s after_def)
  show ?thesis
    by (simp add: kill_claude_process_def native_quit_def s locate_claude_def g f t after_def)
qed

theorem native_quit_assumes_success_witness:
  "sys_platform mac_world = ''darwin'' \<and>
   subprocess_run mac_world osascript_cmd = None \<and>
   kill_claude_process mac_world = ([SubprocessRun osascript_cmd], Some (Inr True)) \<and>
   sys_platform mac_failing_world = ''darwin'' \<and>
   Terminate 50 \<in> set (fst (kill_claude_process mac_failing_world)) \<and>
   subprocess_run mac_failing_world osascript_cmd \<noteq> None"
proof -
  have m: "sys_platform mac_world = ''darwin''" "subprocess_run mac_world osascript_cmd = None"
    by (simp_all add: mac_world_def linux_world_def)
  have n: "native_cmd ''darwin'' = osascript_cmd" by (simp add: native_cmd_def)
  have f: "sys_platform mac_failing_world = ''darwin''"
    by (simp add: mac_failing_world_simps)
  have ev: "Terminate 50 \<in> set (fst (kill_claude_process mac_failing_world))"
    by (simp add: mac_failing_world_kill)
  have ex: "\<exists>ev\<in>set (fst (kill_claude_process mac_failing_world)). signal_event ev"
    by (simp add: mac_failing_world_kill)
  have a: "kill_claude_process mac_world = ([SubprocessRun osascript_cmd], Some (Inr True))"
    using native_quit_assumes_success [of mac_world] m n by simp
  have b: "subprocess_run mac_failing_world osascript_cmd \<noteq> None"
    using native_quit_assumes_success [of mac_failing_world] f n ex by simp
  show ?thesis using m a f ev b by simp
qed

lemma bare_world_simps:
  "sys_platform bare_world = ''linux''"
  "os_getpid bare_world = 100"
  "process_iter bare_world = [2, 50, 100, 101]"
  "proc_name bare_world p = Inr ''bash''"
  "proc_cmdline bare_world 2 = Inr [''/sbin/init'']"
  "proc_cmdline bare_world 50 = Inr [''/usr/bin/claude-desktop'']"
  "proc_cmdline bare_world 100 = Inr [''python3'', ''-m'', ''autoapprove'']"
  "proc_cmdline bare_world 101 = Inr [''node'']"
  "proc_exe bare_world 2 = Inr ''/usr/lib/systemd/systemd''"
  "proc_exe bare_world 50 = Inr ''/usr/bin/claude-desktop''"
  "proc_exe bare_world 100 = Inr ''/usr/bin/python3''"
  "proc_parent bare_world 2 = Inr None"
  "proc_parent bare_world 50 = Inr (Some 2)"
  "proc_parent bare_world 100 = Inr (Some 50)"
  by (simp_all add: bare_world_def linux_world_def)

lemma py_lower_bash: "py_lower ''bash'' = ''bash''"
  by code_simp

lemma bare_world_locate: "locate_claude bare_world = Some (Inr None)"
proof -
  note s = bare_world_simps
  have 1: "exe_walk bare_world (Some 2) = Some (Inr None)"
    by (subst exe_walk.simps) (simp add: s read_exe_path_def exe_walk_None)
  have 2: "exe_walk bare_world (Some 50) = Some (Inr None)"
    by (subst exe_walk.simps) (simp add: s read_exe_path_def 1)
  have 3: "exe_walk bare_world (Some 100) = Some (Inr None)"
    by (subst exe_walk.simps) (simp add: s read_exe_path_def 2)
  have 4: "name_walk bare_world (Some 2) c = Some (Inr c)" for c
    by (subst name_walk.simps) (simp add: s py_lower_bash name_walk_None)
  have 5: "name_walk bare_world (Some 50) c = Some (Inr c)" for c
    by (subst name_walk.simps) (simp add: s py_lower_bash 4)
  have 6: "name_walk bare_world (Some 100) None = Some (Inr None)"
    by (subst name_walk.simps) (simp add: s py_lower_bash 5)
  have g: "get_main_claude_process bare_world = Some (Inr None)"
    by (simp add: get_main_claude_process_def s 3 6)
  have f: "find_claude_process bare_world = Inr None"
    by (simp add: find_claude_process_def claude_candidate_def s py_in_str_list_iff copied_needle_Claude)
  show ?thesis by (simp add: locate_claude_def g f)
qed


lemma desktop_world_kill:
  "kill_claude_process desktop_world =
     ([Children 50, Eprint (TerminatingChild 51), Terminate 51, Eprint (TerminatingChild 52), Terminate 52,
       Eprint (TerminatingMain 50), Terminate 50, WaitProcs [50, 51, 52] 5, Eprint (ForceKilling [52]), Kill 52],
      Some (Inr True))"
  by (simp add: kill_claude_process_def native_quit_def desktop_world_simps desktop_world_locate
      desktop_world_signal after_def)

lemma bare_world_kill: "kill_claude_process bare_world = ([], Some (Inr False))"
  by (simp add: kill_claude_process_def native_quit_def bare_world_simps bare_world_locate after_def)







subsection \<open>Launch Orchestrator\<close>

lemma terminate_children_no_server: "\<forall>ev\<in>set (fst (terminate_children w cs)). \<not> server_event ev"
  by (induction cs) (auto simp: after_def split: option.splits)

lemma kill_alive_no_server: "\<forall>ev\<in>set (fst (kill_alive w ps)). \<not> server_event ev"
  by (induction ps) (auto simp: after_def split: option.splits)

lemma signal_termination_no_server: "\<forall>ev\<in>set (fst (signal_termination w proc)). \<not> server_event ev"
proof (cases "proc_children w proc")
  case (Inl e)
  then show ?thesis by (simp add: signal_termination_def after_def)
next
  case (Inr children)
  obtain evs r where tc: "terminate_children w children = (evs, r)" by (cases "terminate_children w children")
  have evs: "\<forall>ev\<in>set evs. \<not> server_event ev"
    using terminate_children_no_server[of w children] tc by simp
  note u = signal_termination_unfold[OF Inr tc]
  show ?thesis
  proof (cases "wait_procs w (proc # children) 5")
    case (Inl e)
    then show ?thesis using u evs by (auto simp: after_def split: if_splits)
  next
    case wp: (Inr ga)
    then show ?thesis using u evs kill_alive_no_server[of w "snd ga"]
      by (cases ga) (auto simp: after_def split: if_splits)
  qed
qed

lemma native_quit_no_server: "\<forall>ev\<in>set (fst (native_quit w)). \<not> server_event ev"
  by (simp add: native_quit_def split: option.splits)

lemma kill_claude_process_no_server: "\<forall>ev\<in>set (fst (kill_claude_process w)). \<not> server_event ev"
proof -
  obtain evs b where nq: "native_quit w = (evs, b)" by (cases "native_quit w")
  have evs: "\<forall>ev\<in>set evs. \<not> server_event ev" using native_quit_no_server[of w] nq by simp
  show ?thesis
  proof (cases b)
    case True
    then show ?thesis using nq evs by (simp add: kill_claude_process_def)
  next
    case False
    show ?thesis
    proof (cases "locate_claude w")
      case None
      then show ?thesis using nq evs False by (simp add: kill_claude_process_def after_def)
    next
      case (Some r)
      show ?thesis
      proof (cases r)
        case (Inl e)
        then show ?thesis using nq evs False Some by (simp add: kill_claude_process_def after_def)
      next
        case (Inr target)
        show ?thesis
        proof (cases target)
          case None
          then show ?thesis using nq evs False Some Inr by (simp add: kill_claude_process_def after_def)
        next
          case (Some proc)
          obtain evs' r' where st: "signal_termination w proc = (evs', r')"
            by (cases "signal_termination w proc")
          have "\<forall>ev\<in>set evs'. \<not> server_event ev"
            using signal_termination_no_server[of w proc] st by simp
          then show ?thesis
            using nq evs False \<open>locate_claude w = Some r\<close> Inr Some st
            by (cases r') (auto simp: kill_claude_process_def after_def)
        qed
      qed
    qed
  qed
qed

lemma main_port_closed:
  assumes "\<not> daemon a" "\<not> is_port_open w (port a)"
  shows "main n w a i =
     after ([(i, Eprint (StartingMCP (port a))), (i, Eprint (NotListening (port a))), (i, Eprint AttemptingTerminate)]
                 @ map (Pair i) (fst (kill_claude_process w)))
            (case snd (kill_claude_process w) of
               None \<Rightarrow> ([], Stopped i)
             | Some (Inl e) \<Rightarrow> ([], Raised i e)
             | Some (Inr killed) \<Rightarrow>
                 ((if killed then [(i, Eprint ExistingTerminated)] else [])
                  @ [(i, Eprint (StartingClaude (port a))), (i, StartClaude (port a))]
                  @ (case start_claude w (port a) of
                       None \<Rightarrow> []
                     | Some e \<Rightarrow>
                         if e = TimeoutError then [(i, Eprint (FailedToConnect (port a)))]
                         else [(i, Eprint (ErrorStarting e))]),
                  Returned i))"
  using assms by (simp add: after_def)

lemma main_port_open:
  assumes "\<not> daemon a" "is_port_open w (port a)"
  shows "main n w a i =
     after [(i, Eprint (StartingMCP (port a))), (i, InjectScript (port a))]
            (case inject_script w (port a) of
               Some e \<Rightarrow> ([], Raised i e)
             | None \<Rightarrow>
                 after [(i, McpRun)]
                   (case mcp_run w of
                      Some e \<Rightarrow> ([], Raised i e)
                    | None \<Rightarrow> ([], Returned i)))"
  using assms by (simp add: after_def)

lemma main_port_closed_no_server:
  assumes "\<not> daemon a" "\<not> is_port_open w (port a)"
  shows "\<forall>x\<in>set (fst (main n w a i)). \<not> server_event (snd x)"
proof -
  have k: "\<forall>x\<in>set (map (Pair i) (fst (kill_claude_process w))). \<not> server_event (snd x)"
    using kill_claude_process_no_server[of w] by simp
  show ?thesis
  proof (cases "snd (kill_claude_process w)")
    case None
    then show ?thesis using k unfolding main_port_closed[OF assms] by (auto simp: after_def)
  next
    case (Some r)
    show ?thesis
    proof (cases r)
      case (Inl e)
      then show ?thesis using k Some unfolding main_port_closed[OF assms] by (auto simp: after_def)
    next
      case (Inr killed)
      show ?thesis
      proof (cases "start_claude w (port a)")
        case None
        then show ?thesis using k Some Inr unfolding main_port_closed[OF assms] by (auto simp: after_def)
      next
        case (Some e)
        then show ?thesis using k \<open>snd (kill_claude_process w) = Some r\<close> Inr
          unfolding main_port_closed[OF assms] by (auto simp: after_def)
      qed
    qed
  qed
qed

lemma main_port_closed_returns:
  assumes "\<not> daemon a" "\<not> is_port_open w (port a)" "snd (kill_claude_process w) = Some (Inr killed)"
  shows "snd (main n w a i) = Returned i" "(i, StartClaude (port a)) \<in> set (fst (main n w a i))"
  unfolding main_port_closed[OF assms(1,2)] using assms(3) by (simp_all add: after_def)

lemma plain_args_simps: "port plain_args = 9222" "daemon plain_args = False"
  by (simp_all add: plain_args_def)

lemma desktop_world_probe: "is_port_open desktop_world p = False" "start_claude desktop_world p = None"
  by (simp_all add: desktop_world_def linux_world_def)

lemma bare_world_probe: "is_port_open bare_world p = False" "start_claude bare_world p = None"
  by (simp_all add: bare_world_def linux_world_def)

lemma listening_world_simps:
  "is_port_open listening_world p = True" "inject_script listening_world p = None" "mcp_run listening_world = None"
  by (simp_all add: listening_world_def desktop_world_def linux_world_def)

text \<open>
  C1 as stated fails: with nothing listening on the port, the application's process
  terminated and \<open>start_claude\<close> completing without an exception, \<open>main\<close> returns after
  the launch; it neither injects nor starts the Control Server.
\<close>

theorem main_launch_success_counterexample:
  "\<not> daemon plain_args \<and> \<not> is_port_open desktop_world (port plain_args) \<and>
   start_claude desktop_world (port plain_args) = None \<and>
   (0, StartClaude 9222) \<in> set (fst (main 0 desktop_world plain_args 0)) \<and>
   (0, InjectScript 9222) \<notin> set (fst (main 0 desktop_world plain_args 0)) \<and>
   (0, McpRun) \<notin> set (fst (main 0 desktop_world plain_args 0)) \<and>
   snd (main 0 desktop_world plain_args 0) = Returned 0"
  by (simp add: plain_args_simps desktop_world_probe desktop_world_kill after_def)

text \<open>
  C1, as amended: in a run without \<open>--daemon\<close>, when the first port probe is false
  \<open>main\<close> performs no injection and does not start the Control Server, whatever
  \<open>start_claude\<close> does; once \<open>kill_claude_process\<close> has returned, \<open>main\<close> calls
  \<open>start_claude\<close> and then returns normally, whether that call completes or raises.
  When the probe is true \<open>main\<close> injects, and the Control Server is started exactly
  when the injection does not raise.
\<close>

theorem main_probe_decides_server:
  assumes "\<not> daemon a"
  shows "(\<not> is_port_open w (port a) \<longrightarrow>
            (\<forall>x\<in>set (fst (main n w a i)). \<not> server_event (snd x)) \<and>
            (\<forall>killed. snd (kill_claude_process w) = Some (Inr killed) \<longrightarrow>
               (i, StartClaude (port a)) \<in> set (fst (main n w a i)) \<and>
               snd (main n w a i) = Returned i)) \<and>
         (is_port_open w (port a) \<longrightarrow>
            (i, InjectScript (port a)) \<in> set (fst (main n w a i)) \<and>
            ((i, McpRun) \<in> set (fst (main n w a i)) \<longleftrightarrow> inject_script w (port a) = None))"
proof (intro conjI impI allI)
  assume "\<not> is_port_open w (port a)"
  then show "\<forall>x\<in>set (fst (main n w a i)). \<not> server_event (snd x)"
    using assms by (rule main_port_closed_no_server[rotated])
next
  fix killed
  assume "\<not> is_port_open w (port a)" "snd (kill_claude_process w) = Some (Inr killed)"
  then show "(i, StartClaude (port a)) \<in> set (fst (main n w a i))"
    using assms main_port_closed_returns(2) by blast
next
  fix killed
  assume "\<not> is_port_open w (port a)" "snd (kill_claude_process w) = Some (Inr killed)"
  then show "snd (main n w a i) = Returned i"
    using assms main_port_closed_returns(1) by blast
next
  assume o: "is_port_open w (port a)"
  show "(i, InjectScript (port a)) \<in> set (fst (main n w a i))"
    unfolding main_port_open[OF assms o] by (simp add: after_def)
next
  assume o: "is_port_open w (port a)"
  show "(i, McpRun) \<in> set (fst (main n w a i)) \<longleftrightarrow> inject_script w (port a) = None"
    unfolding main_port_open[OF assms o] by (auto simp: after_def split: option.splits)
qed

theorem main_probe_decides_server_witness:
  "\<not> daemon plain_args \<and> \<not> is_port_open desktop_world (port plain_args) \<and>
   snd (kill_claude_process desktop_world) = Some (Inr True) \<and>
   (0, StartClaude (port plain_args)) \<in> set (fst (main 0 desktop_world plain_args 0)) \<and>
   (0, McpRun) \<notin> set (fst (main 0 desktop_world plain_args 0)) \<and>
   snd (main 0 desktop_world plain_args 0) = Returned 0 \<and>
   is_port_open listening_world (port plain_args) \<and>
   inject_script listening_world (port plain_args) = None \<and>
   (0, InjectScript (port plain_args)) \<in> set (fst (main 0 listening_world plain_args 0)) \<and>
   (0, McpRun) \<in> set (fst (main 0 listening_world plain_args 0))"
proof -
  have d: "\<not> daemon plain_args" by (simp add: plain_args_simps)
  have k: "snd (kill_claude_process desktop_world) = Some (Inr True)" by (simp add: desktop_world_kill)
  have c: "\<not> is_port_open desktop_world (port plain_args)" by (simp add: desktop_world_probe)
  have l: "is_port_open listening_world (port plain_args)" "inject_script listening_world (port plain_args) = None"
    by (simp_all add: listening_world_simps)
  from main_probe_decides_server [OF d, of desktop_world 0 0] c k
  have 1: "\<forall>x\<in>set (fst (main 0 desktop_world plain_args 0)). \<not> server_event (snd x)"
    "snd (main 0 desktop_world plain_args 0) = Returned 0"
    "(0, StartClaude (port plain_args)) \<in> set (fst (main 0 desktop_world plain_args 0))" by blast+
  from 1(1) have 2: "(0, McpRun) \<notin> set (fst (main 0 desktop_world plain_args 0))" by force
  from main_probe_decides_server [OF d, of listening_world 0 0] l
  have 3: "(0, InjectScript (port plain_args)) \<in> set (fst (main 0 listening_world plain_args 0))"
    "(0, McpRun) \<in> set (fst (main 0 listening_world plain_args 0))" by blast+
  show ?thesis using d c k 1(2,3) 2 l 3 by blast
qed

text \<open>
  C7: in a run without \<open>--daemon\<close> with the port probe false, \<open>main\<close> calls
  \<open>start_claude\<close> with the port whichever value \<open>kill_claude_process\<close> returned: a
  \<open>False\<close> from the Terminator does not stop the launch.
\<close>

theorem main_launches_after_kill:
  assumes "\<not> daemon a" "\<not> is_port_open w (port a)" "snd (kill_claude_process w) = Some (Inr killed)"
  shows "(i, StartClaude (port a)) \<in> set (fst (main n w a i))"
  using assms by (rule main_port_closed_returns(2))

theorem main_launches_after_kill_witness:
  "\<not> daemon plain_args \<and> \<not> is_port_open bare_world (port plain_args) \<and>
   find_claude_process bare_world = Inr None \<and>
   snd (kill_claude_process bare_world) = Some (Inr False) \<and>
   (0, StartClaude 9222) \<in> set (fst (main 0 bare_world plain_args 0))"
proof -
  have d: "\<not> daemon plain_args" by (simp add: plain_args_simps)
  have c: "\<not> is_port_open bare_world (port plain_args)" by (simp add: bare_world_probe)
  have k: "snd (kill_claude_process bare_world) = Some (Inr False)" by (simp add: bare_world_kill)
  have f: "find_claude_process bare_world = Inr None"
    by (simp add: find_claude_process_def claude_candidate_def bare_world_simps py_in_str_list_iff
        copied_needle_Claude)
  from main_launches_after_kill [OF d c k, of 0 0] d c k f show ?thesis
    by (simp add: plain_args_simps)
qed

subsection \<open>Daemonizer\<close>

lemma daemonize_posix:
  assumes "sys_platform w \<noteq> ''win32''"
  shows "daemonize w i =
     (if os_fork_fails w i then ([(i, Fork), (i, SysExit 1)], Exited)
      else if os_fork_fails w (i + 1) then
        ([(i, Fork), (i, SysExit 0), (i + 1, Chdir ''/''), (i + 1, Setsid), (i + 1, Umask 0), (i + 1, Fork),
          (i + 1, SysExit 1)], Exited)
      else
        ([(i, Fork), (i, SysExit 0), (i + 1, Chdir ''/''), (i + 1, Setsid), (i + 1, Umask 0), (i + 1, Fork),
          (i + 1, SysExit 0), (i + 2, FlushStdout), (i + 2, FlushStderr),
          (i + 2, RedirectStdin), (i + 2, RedirectStdout), (i + 2, RedirectStderr)],
         Returned (i + 2)))"
  using assms by (simp add: daemonize_def after_def)

lemma daemonize_no_server: "\<forall>x\<in>set (fst (daemonize w i)). \<not> server_event (snd x)"
  by (simp add: daemonize_def after_def)

lemma daemonize_status:
  assumes "sys_platform w \<noteq> ''win32''"
  shows "snd (daemonize w i) = Returned (i + 2) \<or> snd (daemonize w i) = Exited"
  by (simp add: daemonize_posix[OF assms])

lemma main_daemon_posix:
  assumes "daemon a" "sys_platform w \<noteq> ''win32''"
  shows "main n w a i =
     (if os_fork_fails w i then
        ([(i, Eprint (StartingMCP (port a))), (i, Fork)], Raised i OSError)
      else if snd (daemonize w (i + 1)) = Exited then
        ([(i, Eprint (StartingMCP (port a))), (i, Fork), (i, Eprint StartedInBackground), (i, SysExit 0)]
           @ fst (daemonize w (i + 1)), Exited)
      else
        after ([(i, Eprint (StartingMCP (port a))), (i, Fork), (i, Eprint StartedInBackground), (i, SysExit 0)]
                 @ fst (daemonize w (i + 1)))
          (case n of 0 \<Rightarrow> ([], Unfinished (i + 3)) | Suc m \<Rightarrow> main m w a (i + 3)))"
proof -
  obtain tr st where d: "daemonize w (Suc i) = (tr, st)" by (cases "daemonize w (Suc i)")
  have e: "Suc i + 2 = i + 3" by simp
  have "st = Returned (i + 3) \<or> st = Exited"
    using daemonize_status[OF assms(2), of "Suc i"] d unfolding e by simp
  then show ?thesis
  proof
    assume "st = Returned (i + 3)"
    then show ?thesis using assms d by (cases n) (simp_all add: after_def)
  next
    assume "st = Exited"
    then show ?thesis using assms d by (simp add: after_def)
  qed
qed

lemma main_daemon_no_server:
  assumes "daemon a" "sys_platform w \<noteq> ''win32''"
  shows "\<forall>x\<in>set (fst (main n w a i)). \<not> server_event (snd x)"
proof (induction n arbitrary: i)
  case 0
  show ?case
    using daemonize_no_server[of w "i + 1"]
    unfolding main_daemon_posix[OF assms, of 0]
    by (auto simp: after_def)
next
  case (Suc n)
  show ?case
    using daemonize_no_server[of w "i + 1"] Suc.IH[of "i + 3"]
    unfolding main_daemon_posix[OF assms, of "Suc n"]
    by (auto simp: after_def simp del: main.simps)
qed

lemma main_daemon_parent_exits:
  assumes "daemon a" "sys_platform w \<noteq> ''win32''" "\<not> os_fork_fails w i"
  shows "(i, SysExit 0) \<in> set (fst (main n w a i))"
  using assms(3)
  by (subst main_daemon_posix[OF assms(1,2)]) (simp add: after_def del: main.simps)

lemma daemonize_succeeds:
  assumes "sys_platform w \<noteq> ''win32''" "\<not> os_fork_fails w (i + 1)" "\<not> os_fork_fails w (i + 2)"
  shows "daemonize w (i + 1) =
        ([(i + 1, Fork), (i + 1, SysExit 0), (i + 2, Chdir ''/''), (i + 2, Setsid), (i + 2, Umask 0), (i + 2, Fork),
          (i + 2, SysExit 0), (i + 3, FlushStdout), (i + 3, FlushStderr),
          (i + 3, RedirectStdin), (i + 3, RedirectStdout), (i + 3, RedirectStderr)],
         Returned (i + 3))"
proof -
  have e: "i + 1 + 1 = i + 2" "i + 1 + 2 = i + 3" by simp_all
  show ?thesis
    unfolding daemonize_posix[OF assms(1), of "i + 1"] e using assms(2,3) by simp
qed

lemma main_daemon_reenters:
  assumes "daemon a" "sys_platform w \<noteq> ''win32''"
    and "\<not> os_fork_fails w i" "\<not> os_fork_fails w (i + 1)" "\<not> os_fork_fails w (i + 2)"
  shows "main (Suc n) w a i =
     after [(i, Eprint (StartingMCP (port a))), (i, Fork), (i, Eprint StartedInBackground), (i, SysExit 0),
            (i + 1, Fork), (i + 1, SysExit 0), (i + 2, Chdir ''/''), (i + 2, Setsid), (i + 2, Umask 0),
            (i + 2, Fork), (i + 2, SysExit 0), (i + 3, FlushStdout), (i + 3, FlushStderr),
            (i + 3, RedirectStdin), (i + 3, RedirectStdout), (i + 3, RedirectStderr)]
       (main n w a (i + 3))"
  unfolding main_daemon_posix[OF assms(1,2), of "Suc n"] daemonize_succeeds[OF assms(2,4,5)]
  using assms(3) by (simp del: main.simps)

lemma main_daemon_first:
  assumes "daemon a" "sys_platform w \<noteq> ''win32''"
    and "\<not> os_fork_fails w i" "\<not> os_fork_fails w (i + 1)" "\<not> os_fork_fails w (i + 2)"
  shows "main 0 w a i =
     ([(i, Eprint (StartingMCP (port a))), (i, Fork), (i, Eprint StartedInBackground), (i, SysExit 0),
       (i + 1, Fork), (i + 1, SysExit 0), (i + 2, Chdir ''/''), (i + 2, Setsid), (i + 2, Umask 0),
       (i + 2, Fork), (i + 2, SysExit 0), (i + 3, FlushStdout), (i + 3, FlushStderr),
       (i + 3, RedirectStdin), (i + 3, RedirectStdout), (i + 3, RedirectStderr)],
      Unfinished (i + 3))"
  unfolding main_daemon_posix[OF assms(1,2), of 0] daemonize_succeeds[OF assms(2,4,5)]
  using assms(3) by (simp add: after_def del: main.simps)

lemma main_daemon_unfinished:
  assumes "daemon a" "sys_platform w \<noteq> ''win32''" "\<forall>j. \<not> os_fork_fails w j"
  shows "snd (main n w a i) = Unfinished (i + 3 * Suc n) \<and>
         length (filter (\<lambda>x. snd x = Fork) (fst (main n w a i))) = 3 * Suc n"
proof (induction n arbitrary: i)
  case 0
  have f: "\<not> os_fork_fails w i" "\<not> os_fork_fails w (i + 1)" "\<not> os_fork_fails w (i + 2)"
    using assms(3) by simp_all
  show ?case
    unfolding main_daemon_first[OF assms(1,2) f] by simp
next
  case (Suc n)
  have f: "\<not> os_fork_fails w i" "\<not> os_fork_fails w (i + 1)" "\<not> os_fork_fails w (i + 2)"
    using assms(3) by simp_all
  have e: "i + 3 + 3 * Suc n = i + 3 * Suc (Suc n)" by simp
  show ?case
    unfolding main_daemon_reenters[OF assms(1,2) f]
    using Suc.IH[of "i + 3"] unfolding e by (simp add: after_def del: main.simps)
qed

text \<open>
  C3: on a platform other than Windows, a run of \<open>main\<close> with the daemon flag set
  never injects and never starts the Control Server, in any process, however far the
  run is followed. If the first fork fails the exception leaves \<open>main\<close>; otherwise the
  parent exits with status 0. When the three forks succeed, the daemonized grandchild
  calls \<open>main\<close> with the same arguments, daemon flag included: the run goes on as a new
  run of \<open>main\<close> in process \<open>i + 3\<close>. So when no fork fails the run never finishes:
  followed through \<open>n\<close> nested calls it has forked \<open>3 * (n + 1)\<close> times and is about
  to call \<open>main\<close> again.
\<close>

theorem main_daemon_never_serves:
  assumes "daemon a" "sys_platform w \<noteq> ''win32''"
  shows "(\<forall>x\<in>set (fst (main n w a i)). \<not> server_event (snd x)) \<and>
         (os_fork_fails w i \<longrightarrow>
            main n w a i = ([(i, Eprint (StartingMCP (port a))), (i, Fork)], Raised i OSError)) \<and>
         (\<not> os_fork_fails w i \<longrightarrow> (i, SysExit 0) \<in> set (fst (main n w a i))) \<and>
         (\<not> os_fork_fails w i \<and> \<not> os_fork_fails w (i + 1) \<and> \<not> os_fork_fails w (i + 2) \<longrightarrow>
            main (Suc n) w a i =
              after [(i, Eprint (StartingMCP (port a))), (i, Fork), (i, Eprint StartedInBackground), (i, SysExit 0),
                     (i + 1, Fork), (i + 1, SysExit 0), (i + 2, Chdir ''/''), (i + 2, Setsid), (i + 2, Umask 0),
                     (i + 2, Fork), (i + 2, SysExit 0), (i + 3, FlushStdout), (i + 3, FlushStderr),
                     (i + 3, RedirectStdin), (i + 3, RedirectStdout), (i + 3, RedirectStderr)]
                (main n w a (i + 3))) \<and>
         ((\<forall>j. \<not> os_fork_fails w j) \<longrightarrow>
            snd (main n w a i) = Unfinished (i + 3 * Suc n) \<and>
            length (filter (\<lambda>x. snd x = Fork) (fst (main n w a i))) = 3 * Suc n)"
proof (intro conjI impI)
  show "\<forall>x\<in>set (fst (main n w a i)). \<not> server_event (snd x)"
    by (rule main_daemon_no_server[OF assms])
next
  assume "os_fork_fails w i"
  then show "main n w a i = ([(i, Eprint (StartingMCP (port a))), (i, Fork)], Raised i OSError)"
    by (subst main_daemon_posix[OF assms]) (simp del: main.simps)
next
  assume "\<not> os_fork_fails w i"
  then show "(i, SysExit 0) \<in> set (fst (main n w a i))"
    by (rule main_daemon_parent_exits[OF assms])
next
  assume "\<not> os_fork_fails w i \<and> \<not> os_fork_fails w (i + 1) \<and> \<not> os_fork_fails w (i + 2)"
  then show "main (Suc n) w a i =
              after [(i, Eprint (StartingMCP (port a))), (i, Fork), (i, Eprint StartedInBackground), (i, SysExit 0),
                     (i + 1, Fork), (i + 1, SysExit 0), (i + 2, Chdir ''/''), (i + 2, Setsid), (i + 2, Umask 0),
                     (i + 2, Fork), (i + 2, SysExit 0), (i + 3, FlushStdout), (i + 3, FlushStderr),
                     (i + 3, RedirectStdin), (i + 3, RedirectStdout), (i + 3, RedirectStderr)]
                (main n w a (i + 3))"
    using main_daemon_reenters[OF assms] by blast
next
  assume "\<forall>j. \<not> os_fork_fails w j"
  then show "snd (main n w a i) = Unfinished (i + 3 * Suc n)"
    using main_daemon_unfinished[OF assms] by blast
next
  assume "\<forall>j. \<not> os_fork_fails w j"
  then show "length (filter (\<lambda>x. snd x = Fork) (fst (main n w a i))) = 3 * Suc n"
    using main_daemon_unfinished[OF assms] by blast
qed

theorem main_daemon_never_serves_witness:
  "daemon daemon_args \<and> sys_platform linux_world \<noteq> ''win32'' \<and>
   (0, McpRun) \<notin> set (fst (main 1 linux_world daemon_args 0)) \<and>
   (0, SysExit 0) \<in> set (fst (main 1 linux_world daemon_args 0)) \<and>
   snd (main 1 linux_world daemon_args 0) = Unfinished 6 \<and>
   length (filter (\<lambda>x. snd x = Fork) (fst (main 1 linux_world daemon_args 0))) = 6 \<and>
   os_fork_fails no_fork_world 0 \<and>
   main 1 no_fork_world daemon_args 0 = ([(0, Eprint (StartingMCP 9222)), (0, Fork)], Raised 0 OSError)"
proof -
  have d: "daemon daemon_args" "port daemon_args = 9222" by (simp_all add: daemon_args_def)
  have p: "sys_platform linux_world \<noteq> ''win32''" by (simp add: linux_world_simps)
  have f: "\<forall>j. \<not> os_fork_fails linux_world j" by (simp add: linux_world_def)
  have pn: "sys_platform no_fork_world \<noteq> ''win32''" by (simp add: no_fork_world_def linux_world_def)
  have fn: "os_fork_fails no_fork_world 0" by (simp add: no_fork_world_def)
  from main_daemon_never_serves [OF d(1) p, of 1 0] f
  have 1: "\<forall>x\<in>set (fst (main 1 linux_world daemon_args 0)). \<not> server_event (snd x)"
    and 2: "(0, SysExit 0) \<in> set (fst (main 1 linux_world daemon_args 0))"
    and 3: "snd (main 1 linux_world daemon_args 0) = Unfinished (0 + 3 * Suc 1)"
    and 4: "length (filter (\<lambda>x. snd x = Fork) (fst (main 1 linux_world daemon_args 0))) = 3 * Suc 1"
    by blast+
  from 1 have 5: "(0, McpRun) \<notin> set (fst (main 1 linux_world daemon_args 0))" by force
  from main_daemon_never_serves [OF d(1) pn, of 1 0] fn
  have 6: "main 1 no_fork_world daemon_args 0 =
      ([(0, Eprint (StartingMCP (port daemon_args))), (0, Fork)], Raised 0 OSError)"
    by blast
  show ?thesis using d p fn 2 3 4 5 6 by simp
qed

end
